theory Spec2Isabelle
  imports Complex_Main
begin

section \<open>JavaScript strings and arrays\<close>

text \<open>
  A JavaScript string is modelled as a \<open>string\<close>, one \<open>char\<close> per UTF-16 code unit, so
  \<open>length\<close> is the \<open>.length\<close> of the source. Characters outside the basic plane (two code
  units, one step of a \<open>for ... of\<close> loop) are outside the model. Pixel widths and pointer
  coordinates are JavaScript numbers, that is doubles; every double is a rational, and
  comparing two of them is exact. An arithmetic operation on doubles yields the exact
  result rounded to a double: where the source computes with measured widths, the model
  applies the rounding \<open>fl\<close>, a parameter, to the exact result of each operation.
\<close>

definition backslash :: char where
  "backslash = CHR 0x5C"

definition newline :: char where
  "newline = CHR 0x0A"

text \<open>
  \<open>String.prototype.slice(a, b)\<close>: a negative index counts from the end, both indices are
  clamped to the string, and an empty string results when the end is not after the start.
  \<open>sliceFrom\<close> is the one-argument form \<open>slice(a)\<close>.
\<close>

definition sliceIndex :: "nat \<Rightarrow> int \<Rightarrow> nat" where
  "sliceIndex n a = (if a < 0 then nat (max (int n + a) 0) else nat (min a (int n)))"

definition slice :: "string \<Rightarrow> int \<Rightarrow> int \<Rightarrow> string" where
  "slice s a b = take (sliceIndex (length s) b - sliceIndex (length s) a) (drop (sliceIndex (length s) a) s)"

definition sliceFrom :: "string \<Rightarrow> int \<Rightarrow> string" where
  "sliceFrom s a = drop (sliceIndex (length s) a) s"

text \<open>
  \<open>Array.prototype.splice(i, 0, v)\<close> inserts \<open>v\<close> before index \<open>i\<close> (at the end when \<open>i\<close> is
  past it); \<open>splice(i, 1)\<close> removes the element at index \<open>i\<close> (nothing when there is none).
\<close>

definition spliceInsert :: "'a list \<Rightarrow> nat \<Rightarrow> 'a \<Rightarrow> 'a list" where
  "spliceInsert xs i v = take i xs @ [v] @ drop i xs"

definition spliceRemove :: "'a list \<Rightarrow> nat \<Rightarrow> 'a list" where
  "spliceRemove xs i = take i xs @ drop (Suc i) xs"

text \<open>\<open>Array.prototype.join(sep)\<close>.\<close>

fun join :: "string \<Rightarrow> string list \<Rightarrow> string" where
  "join sep [] = []"
| "join sep [x] = x"
| "join sep (x # y # ys) = x @ sep @ join sep (y # ys)"

text \<open>
  Reading \<open>this._lines[i]\<close>: \<open>None\<close> stands for \<open>undefined\<close>, the value of an index that is
  not in the array. Reading a property of \<open>undefined\<close> throws a \<open>TypeError\<close>.
\<close>

datatype error = TypeError

definition lineAt :: "string list \<Rightarrow> nat \<Rightarrow> string option" where
  "lineAt ls i = (if i < length ls then Some (ls ! i) else None)"

section \<open>The text input window (Reishandy\_TextInput.js)\<close>

text \<open>
  The fields of \<open>Window_TextInput\<close> that the editing operations read or write. The value
  of the hidden HTML input element, \<open>this._inputElement.value\<close>, is the field \<open>inputValue\<close>.
  The blink timer, the cursor visibility flag and \<open>_visibleStartLine\<close> are written by
  \<open>refresh\<close> and \<open>update\<close> only and read by drawing only; they and the calls of
  \<open>refresh\<close> are left out. \<open>maxLines\<close> is the plugin argument, a number from 1 to 100.
  The cursor indices only ever receive values that are not negative (a decrement by one is
  guarded by \<open>> 0\<close>, the decrement by two happens at a column of at least 2, and the
  negative row of a pointer tap throws before the window is used again), so they are
  natural numbers.
\<close>

record window =
  maxLines :: nat
  lines :: "string list"
  cursorX :: nat
  cursorY :: nat
  isComposing :: bool
  lastInputValue :: string
  inputValue :: string

text \<open>\<open>initialize\<close>, with the state set up by \<open>createHtmlInput\<close>.\<close>

definition initialize :: "nat \<Rightarrow> window" where
  "initialize n = \<lparr> maxLines = n, lines = [[]], cursorX = 0, cursorY = 0,
     isComposing = False, lastInputValue = [], inputValue = [] \<rparr>"

text \<open>\<open>inputText\<close>: the lines joined by a newline.\<close>

definition inputText :: "window \<Rightarrow> string" where
  "inputText w = join [newline] (lines w)"

subsection \<open>Character insertion\<close>

text \<open>
  \<open>processedChar\<close> and \<open>potentialLine\<close> are the two local constants of \<open>processChar\<close>;
  \<open>breakLine\<close> is the block that splits the current line at the cursor. The text
  measurement \<open>this.textWidth\<close> and the available width
  \<open>this.contentsWidth() - this.padding * 2\<close> belong to the host engine and are the
  parameters \<open>tw\<close> and \<open>maxWidth\<close>.
\<close>

definition processedChar :: "string \<Rightarrow> string" where
  "processedChar ch = (if ch = [backslash] then [backslash, backslash] else ch)"

definition potentialLine :: "string \<Rightarrow> nat \<Rightarrow> string \<Rightarrow> string" where
  "potentialLine line cx ch = slice line 0 (int cx) @ processedChar ch @ sliceFrom line (int cx)"

definition breakLine :: "string \<Rightarrow> window \<Rightarrow> window" where
  "breakLine line w =
     w\<lparr> lines := spliceInsert ((lines w)[cursorY w := slice line 0 (int (cursorX w))])
                    (cursorY w + 1) (sliceFrom line (int (cursorX w))),
        cursorY := cursorY w + 1,
        cursorX := 0 \<rparr>"

function processChar :: "(string \<Rightarrow> rat) \<Rightarrow> rat \<Rightarrow> string \<Rightarrow> window \<Rightarrow> error + window" where
  "processChar tw maxWidth ch w =
     (case lineAt (lines w) (cursorY w) of
        None \<Rightarrow> Inl TypeError
      | Some line \<Rightarrow>
          if maxWidth < tw (potentialLine line (cursorX w) ch) then
            (if length (lines w) < maxLines w
             then processChar tw maxWidth ch (breakLine line w)
             else Inr w)
          else Inr (w\<lparr> lines := (lines w)[cursorY w := potentialLine line (cursorX w) ch],
                       cursorX := cursorX w + length (processedChar ch) \<rparr>))"
  by pat_completeness auto
termination
  by (relation "measure (\<lambda>(tw, maxWidth, ch, w). maxLines w - length (lines w))")
     (auto simp: breakLine_def spliceInsert_def)

declare processChar.simps [simp del]

text \<open>
  The number of times \<open>processChar\<close> calls itself for one character: the same tests as
  \<open>processChar\<close>, counting one for each recursive call.
\<close>

function processChar_depth :: "(string \<Rightarrow> rat) \<Rightarrow> rat \<Rightarrow> string \<Rightarrow> window \<Rightarrow> nat" where
  "processChar_depth tw maxWidth ch w =
     (case lineAt (lines w) (cursorY w) of
        None \<Rightarrow> 0
      | Some line \<Rightarrow>
          if maxWidth < tw (potentialLine line (cursorX w) ch) then
            (if length (lines w) < maxLines w
             then Suc (processChar_depth tw maxWidth ch (breakLine line w))
             else 0)
          else 0)"
  by pat_completeness auto
termination
  by (relation "measure (\<lambda>(tw, maxWidth, ch, w). maxLines w - length (lines w))")
     (auto simp: breakLine_def spliceInsert_def)

declare processChar_depth.simps [simp del]

subsection \<open>Deletion and line break\<close>

text \<open>
  \<open>processBackspace\<close>. The test for an escaped backslash slices from \<open>cursorX - 2\<close>, which
  is negative at column 1 and then counts from the end of the line; the slice is two
  backslashes only at a column of at least 2 (\<open>escape_needs_two\<close> below). In the merge
  branch the source concatenates \<open>previousLine + line\<close> without reading a property of
  \<open>line\<close>; were \<open>line\<close> \<open>undefined\<close>, JavaScript would append the text \<open>undefined\<close>.
\<close>

definition processBackspace :: "window \<Rightarrow> error + window" where
  "processBackspace w =
     (let line = lineAt (lines w) (cursorY w) in
      if cursorX w > 0 then
        (case line of
           None \<Rightarrow> Inl TypeError
         | Some l \<Rightarrow>
             if slice l (int (cursorX w) - 2) (int (cursorX w)) = [backslash, backslash]
             then Inr (w\<lparr> lines := (lines w)[cursorY w :=
                                 slice l 0 (int (cursorX w) - 2) @ sliceFrom l (int (cursorX w))],
                          cursorX := cursorX w - 2 \<rparr>)
             else Inr (w\<lparr> lines := (lines w)[cursorY w :=
                                 slice l 0 (int (cursorX w) - 1) @ sliceFrom l (int (cursorX w))],
                          cursorX := cursorX w - 1 \<rparr>))
      else if cursorY w > 0 then
        (case lineAt (lines w) (cursorY w - 1) of
           None \<Rightarrow> Inl TypeError
         | Some previousLine \<Rightarrow>
             Inr (w\<lparr> cursorX := length previousLine,
                     lines := spliceRemove
                                ((lines w)[cursorY w - 1 :=
                                   previousLine @ (case line of None \<Rightarrow> ''undefined'' | Some l \<Rightarrow> l)])
                                (cursorY w),
                     cursorY := cursorY w - 1 \<rparr>))
      else Inr w)"

text \<open>\<open>processBackspace\<close> of Reishandy\_TextInput\_old.js, which does not look for backslashes.\<close>

definition processBackspace_old :: "window \<Rightarrow> error + window" where
  "processBackspace_old w =
     (let line = lineAt (lines w) (cursorY w) in
      if cursorX w > 0 then
        (case line of
           None \<Rightarrow> Inl TypeError
         | Some l \<Rightarrow>
             Inr (w\<lparr> lines := (lines w)[cursorY w :=
                               slice l 0 (int (cursorX w) - 1) @ sliceFrom l (int (cursorX w))],
                     cursorX := cursorX w - 1 \<rparr>))
      else if cursorY w > 0 then
        (case lineAt (lines w) (cursorY w - 1) of
           None \<Rightarrow> Inl TypeError
         | Some previousLine \<Rightarrow>
             Inr (w\<lparr> cursorX := length previousLine,
                     lines := spliceRemove
                                ((lines w)[cursorY w - 1 :=
                                   previousLine @ (case line of None \<Rightarrow> ''undefined'' | Some l \<Rightarrow> l)])
                                (cursorY w),
                     cursorY := cursorY w - 1 \<rparr>))
      else Inr w)"

definition processNewLine :: "window \<Rightarrow> error + window" where
  "processNewLine w =
     (if maxLines w \<le> length (lines w) then Inr w
      else (case lineAt (lines w) (cursorY w) of
              None \<Rightarrow> Inl TypeError
            | Some line \<Rightarrow> Inr (breakLine line w)))"

subsection \<open>Cursor movement\<close>

text \<open>
  The test \<open>this._cursorY < this._lines.length - 1\<close> is written \<open>cursorY w + 1 < length (lines w)\<close>,
  which agrees with it also for an empty array.
\<close>

definition moveCursorLeft :: "window \<Rightarrow> error + window" where
  "moveCursorLeft w =
     (if cursorX w > 0 then Inr (w\<lparr> cursorX := cursorX w - 1 \<rparr>)
      else if cursorY w > 0 then
        (case lineAt (lines w) (cursorY w - 1) of
           None \<Rightarrow> Inl TypeError
         | Some l \<Rightarrow> Inr (w\<lparr> cursorY := cursorY w - 1, cursorX := length l \<rparr>))
      else Inr w)"

definition moveCursorRight :: "window \<Rightarrow> error + window" where
  "moveCursorRight w =
     (case lineAt (lines w) (cursorY w) of
        None \<Rightarrow> Inl TypeError
      | Some l \<Rightarrow>
          if cursorX w < length l then Inr (w\<lparr> cursorX := cursorX w + 1 \<rparr>)
          else if cursorY w + 1 < length (lines w)
          then Inr (w\<lparr> cursorY := cursorY w + 1, cursorX := 0 \<rparr>)
          else Inr w)"

definition moveCursorUp :: "window \<Rightarrow> error + window" where
  "moveCursorUp w =
     (if cursorY w > 0 then
        (case lineAt (lines w) (cursorY w - 1) of
           None \<Rightarrow> Inl TypeError
         | Some l \<Rightarrow> Inr (w\<lparr> cursorY := cursorY w - 1, cursorX := min (cursorX w) (length l) \<rparr>))
      else Inr w)"

definition moveCursorDown :: "window \<Rightarrow> error + window" where
  "moveCursorDown w =
     (if cursorY w + 1 < length (lines w) then
        (case lineAt (lines w) (cursorY w + 1) of
           None \<Rightarrow> Inl TypeError
         | Some l \<Rightarrow> Inr (w\<lparr> cursorY := cursorY w + 1, cursorX := min (cursorX w) (length l) \<rparr>))
      else Inr w)"

subsection \<open>Pointer taps\<close>

text \<open>
  The loop of \<open>moveCursorToTouch\<close> over the characters of the touched line, with its loop
  variable \<open>i\<close> and the variable \<open>bestPos\<close>; a \<open>break\<close> leaves with \<open>bestPos = i\<close>. Inside
  the loop \<open>i\<close> is an index of the line, so \<open>line.substring(0, i)\<close> is \<open>take i line\<close> and
  \<open>line.charAt(i)\<close> is the one character \<open>[line ! i]\<close>. The test
  \<open>x < charStart + charWidth / 2\<close> divides and adds doubles: each of the two results is
  rounded by \<open>fl\<close>.
\<close>

function touchScan :: "(rat \<Rightarrow> rat) \<Rightarrow> (string \<Rightarrow> rat) \<Rightarrow> string \<Rightarrow> rat \<Rightarrow> nat \<Rightarrow> nat \<Rightarrow> nat" where
  "touchScan fl tw line x i bestPos =
     (if i < length line then
        (if x < fl (tw (take i line) + fl (tw [line ! i] / 2)) then i
         else touchScan fl tw line x (i + 1) (i + 1))
      else bestPos)"
  by pat_completeness auto
termination
  by (relation "measure (\<lambda>(fl, tw, line, x, i, bestPos). length line - i)") auto

declare touchScan.simps [simp del]

text \<open>
  \<open>moveCursorToTouch\<close>. The touched row is \<open>Math.floor(y / lineHeight)\<close>, where the line
  height of the engine is positive. The source tests the row against the number of lines
  only: for a negative row it stores the row, reads \<open>this._lines[row]\<close>, which is
  \<open>undefined\<close>, and throws on \<open>line.length\<close>.
\<close>

definition moveCursorToTouch :: "(rat \<Rightarrow> rat) \<Rightarrow> (string \<Rightarrow> rat) \<Rightarrow> rat \<Rightarrow> rat \<Rightarrow> rat \<Rightarrow> window \<Rightarrow> error + window" where
  "moveCursorToTouch fl tw lineHeight x y w =
     (let touchedLine = \<lfloor>y / lineHeight\<rfloor> in
      if touchedLine < int (length (lines w)) then
        (if touchedLine < 0 then Inl TypeError
         else
           (let line = lines w ! nat touchedLine;
                bestPos = touchScan fl tw line x 0 0
            in Inr (w\<lparr> cursorY := nat touchedLine,
                       cursorX := nat (max 0 (int bestPos - 1)) \<rparr>)))
      else Inr w)"

text \<open>
  \<open>moveCursorToTouch\<close> of TextInput.js, the first version of the plugin: the column is the
  character boundary whose \<open>x\<close> position is nearest to the tap, the leftmost one among
  equally near ones. \<open>maxValue\<close> is \<open>Number.MAX_VALUE\<close>; the difference \<open>textWidth - x\<close> is
  rounded by \<open>fl\<close>.
\<close>

definition maxValue :: rat where
  "maxValue = 2 ^ 1024 - 2 ^ 971"

function nearestScan :: "(rat \<Rightarrow> rat) \<Rightarrow> (string \<Rightarrow> rat) \<Rightarrow> string \<Rightarrow> rat \<Rightarrow> nat \<Rightarrow> nat \<Rightarrow> rat \<Rightarrow> nat" where
  "nearestScan fl tw line x i bestPos bestDiff =
     (if i \<le> length line then
        (if \<bar>fl (tw (take i line) - x)\<bar> < bestDiff
         then nearestScan fl tw line x (i + 1) i \<bar>fl (tw (take i line) - x)\<bar>
         else nearestScan fl tw line x (i + 1) bestPos bestDiff)
      else bestPos)"
  by pat_completeness auto
termination
  by (relation "measure (\<lambda>(fl, tw, line, x, i, bestPos, bestDiff). Suc (length line) - i)") auto

declare nearestScan.simps [simp del]

definition moveCursorToTouch_TextInput :: "(rat \<Rightarrow> rat) \<Rightarrow> (string \<Rightarrow> rat) \<Rightarrow> rat \<Rightarrow> rat \<Rightarrow> rat \<Rightarrow> window \<Rightarrow> error + window" where
  "moveCursorToTouch_TextInput fl tw lineHeight x y w =
     (let touchedLine = \<lfloor>y / lineHeight\<rfloor> in
      if touchedLine < int (length (lines w)) then
        (if touchedLine < 0 then Inl TypeError
         else
           (let line = lines w ! nat touchedLine;
                bestPos = nearestScan fl tw line x 0 0 maxValue
            in Inr (w\<lparr> cursorY := nat touchedLine, cursorX := bestPos \<rparr>)))
      else Inr w)"

subsection \<open>Keyboard and input events\<close>

datatype key = ArrowLeft | ArrowRight | ArrowUp | ArrowDown | Backspace | Enter | OtherKey

text \<open>
  The \<open>keydown\<close> handler \<open>_boundHandleKeyDown\<close>. \<open>preventDefault\<close> keeps the browser from
  editing the input element, so its value changes only where the handler assigns it.
\<close>

definition clearInput :: "error + window \<Rightarrow> error + window" where
  "clearInput r = (case r of Inl e \<Rightarrow> Inl e
                   | Inr w \<Rightarrow> Inr (w\<lparr> lastInputValue := [], inputValue := [] \<rparr>))"

fun handleKeyDown :: "key \<Rightarrow> window \<Rightarrow> error + window" where
  "handleKeyDown ArrowLeft w = clearInput (moveCursorLeft w)"
| "handleKeyDown ArrowRight w = clearInput (moveCursorRight w)"
| "handleKeyDown ArrowUp w = clearInput (moveCursorUp w)"
| "handleKeyDown ArrowDown w = clearInput (moveCursorDown w)"
| "handleKeyDown Backspace w =
     (case processBackspace w of Inl e \<Rightarrow> Inl e
      | Inr w' \<Rightarrow> Inr (w'\<lparr> lastInputValue := inputValue w' \<rparr>))"
| "handleKeyDown Enter w = clearInput (processNewLine w)"
| "handleKeyDown OtherKey w = Inr w"

text \<open>The two loops of \<open>processInputDifference\<close>.\<close>

fun processChars :: "(string \<Rightarrow> rat) \<Rightarrow> rat \<Rightarrow> string \<Rightarrow> window \<Rightarrow> error + window" where
  "processChars tw maxWidth [] w = Inr w"
| "processChars tw maxWidth (c # cs) w =
     (case processChar tw maxWidth [c] w of
        Inl e \<Rightarrow> Inl e
      | Inr w' \<Rightarrow> processChars tw maxWidth cs w')"

function backspaceLoop :: "nat \<Rightarrow> nat \<Rightarrow> window \<Rightarrow> error + window" where
  "backspaceLoop i deletedCount w =
     (if i < deletedCount then
        (case processBackspace w of
           Inl e \<Rightarrow> Inl e
         | Inr w' \<Rightarrow> backspaceLoop (i + 1) deletedCount w')
      else Inr w)"
  by pat_completeness auto
termination
  by (relation "measure (\<lambda>(i, deletedCount, w). deletedCount - i)") auto

declare backspaceLoop.simps [simp del]

definition processInputDifference :: "(string \<Rightarrow> rat) \<Rightarrow> rat \<Rightarrow> window \<Rightarrow> error + window" where
  "processInputDifference tw maxWidth w =
     (let currentValue = inputValue w;
          previousValue = lastInputValue w
      in case (if length previousValue < length currentValue
               then processChars tw maxWidth (sliceFrom currentValue (int (length previousValue))) w
               else if length currentValue < length previousValue
               then backspaceLoop 0 (length previousValue - length currentValue) w
               else Inr w) of
           Inl e \<Rightarrow> Inl e
         | Inr w' \<Rightarrow> Inr (w'\<lparr> lastInputValue := currentValue \<rparr>))"

text \<open>
  The \<open>input\<close> event: the browser has written the new value \<open>v\<close> into the input element
  and calls \<open>_boundOnInputChange\<close>. The composition events set and clear \<open>_isComposing\<close>.
\<close>

definition boundOnInputChange :: "(string \<Rightarrow> rat) \<Rightarrow> rat \<Rightarrow> window \<Rightarrow> error + window" where
  "boundOnInputChange tw maxWidth w =
     (if \<not> isComposing w then processInputDifference tw maxWidth w else Inr w)"

definition inputEvent :: "(string \<Rightarrow> rat) \<Rightarrow> rat \<Rightarrow> string \<Rightarrow> window \<Rightarrow> error + window" where
  "inputEvent tw maxWidth v w = boundOnInputChange tw maxWidth (w\<lparr> inputValue := v \<rparr>)"

definition compositionStart :: "window \<Rightarrow> window" where
  "compositionStart w = w\<lparr> isComposing := True \<rparr>"

definition compositionEnd :: "(string \<Rightarrow> rat) \<Rightarrow> rat \<Rightarrow> window \<Rightarrow> error + window" where
  "compositionEnd tw maxWidth w = processInputDifference tw maxWidth (w\<lparr> isComposing := False \<rparr>)"

section \<open>Well-formed windows\<close>

text \<open>
  The buffer holds between one and \<open>maxLines\<close> lines and the cursor is a position of it.
\<close>

definition wellFormed :: "window \<Rightarrow> bool" where
  "wellFormed w \<longleftrightarrow>
     1 \<le> length (lines w) \<and> length (lines w) \<le> maxLines w \<and>
     cursorY w < length (lines w) \<and> cursorX w \<le> length (lines w ! cursorY w)"

section \<open>Sequences of operations\<close>

text \<open>
  The editing operations of the window as data, and a run of them from left to right that
  stops at the first exception. \<open>Tap x y\<close> is a pointer tap at the content coordinates
  \<open>(x, y)\<close>.
\<close>

datatype operation =
  InsertChar string | DeleteLeft | NewLine | MoveLeft | MoveRight | MoveUp | MoveDown | Tap rat rat

fun applyOperation :: "(rat \<Rightarrow> rat) \<Rightarrow> (string \<Rightarrow> rat) \<Rightarrow> rat \<Rightarrow> rat \<Rightarrow> operation \<Rightarrow> window \<Rightarrow> error + window" where
  "applyOperation fl tw maxWidth lineHeight (InsertChar ch) w = processChar tw maxWidth ch w"
| "applyOperation fl tw maxWidth lineHeight DeleteLeft w = processBackspace w"
| "applyOperation fl tw maxWidth lineHeight NewLine w = processNewLine w"
| "applyOperation fl tw maxWidth lineHeight MoveLeft w = moveCursorLeft w"
| "applyOperation fl tw maxWidth lineHeight MoveRight w = moveCursorRight w"
| "applyOperation fl tw maxWidth lineHeight MoveUp w = moveCursorUp w"
| "applyOperation fl tw maxWidth lineHeight MoveDown w = moveCursorDown w"
| "applyOperation fl tw maxWidth lineHeight (Tap x y) w = moveCursorToTouch fl tw lineHeight x y w"

fun run :: "(rat \<Rightarrow> rat) \<Rightarrow> (string \<Rightarrow> rat) \<Rightarrow> rat \<Rightarrow> rat \<Rightarrow> operation list \<Rightarrow> window \<Rightarrow> error + window" where
  "run fl tw maxWidth lineHeight [] w = Inr w"
| "run fl tw maxWidth lineHeight (operation # rest) w =
     (case applyOperation fl tw maxWidth lineHeight operation w of
        Inl e \<Rightarrow> Inl e
      | Inr w' \<Rightarrow> run fl tw maxWidth lineHeight rest w')"

text \<open>A tap whose row is not negative.\<close>

fun tapBelowTop :: "operation \<Rightarrow> bool" where
  "tapBelowTop (Tap x y) = (0 \<le> y)"
| "tapBelowTop _ = True"

section \<open>Reconciliation passes\<close>

text \<open>
  The primitive edits of one reconciliation pass in the words of the specification: when
  the observed string \<open>current\<close> is longer than the last observed string \<open>previous\<close>, one
  edit for each character of \<open>current[len(previous):]\<close>, in order, which is a line split
  for a newline and an insertion for any other character; when it is shorter,
  \<open>len(previous) - len(current)\<close> deletions; none when the lengths are equal.
\<close>

definition reconcileOperations :: "string \<Rightarrow> string \<Rightarrow> operation list" where
  "reconcileOperations previous current =
     (if length previous < length current
      then map (\<lambda>c. if c = newline then NewLine else InsertChar [c])
             (drop (length previous) current)
      else replicate (length previous - length current) DeleteLeft)"

text \<open>
  A sequence of observed values of the input element, each delivered by an \<open>input\<close>
  event. The element is a single-line \<open><input type="text">\<close>, whose value holds no
  line break.
\<close>

fun feed :: "(string \<Rightarrow> rat) \<Rightarrow> rat \<Rightarrow> string list \<Rightarrow> window \<Rightarrow> error + window" where
  "feed tw maxWidth [] w = Inr w"
| "feed tw maxWidth (v # vs) w =
     (case inputEvent tw maxWidth v w of
        Inl e \<Rightarrow> Inl e
      | Inr w' \<Rightarrow> feed tw maxWidth vs w')"

section \<open>A fixed-width font\<close>

text \<open>Text measurement in which every character is \<open>cw\<close> pixels wide.\<close>

definition fixedWidth :: "rat \<Rightarrow> string \<Rightarrow> rat" where
  "fixedWidth cw s = cw * of_nat (length s)"

text \<open>The text with every backslash doubled, as \<open>processedChar\<close> doubles one.\<close>

definition escapeBackslashes :: "string \<Rightarrow> string" where
  "escapeBackslashes t = concat (map (\<lambda>c. processedChar [c]) t)"

section \<open>Basic facts\<close>

subsection \<open>Slices at cursor positions\<close>

lemma sliceIndex_int [simp]: "sliceIndex n (int k) = min k n"
  by (simp add: sliceIndex_def min_def)

lemma slice_0_int [simp]: "slice s 0 (int k) = take k s"
  by (simp add: slice_def sliceIndex_def min_def)

lemma sliceFrom_int [simp]: "sliceFrom s (int k) = drop k s"
  by (simp add: sliceFrom_def min_def)

lemma slice_0_pred: "0 < k \<Longrightarrow> slice s 0 (int k - 1) = take (k - 1) s"
  using slice_0_int [of s "k - 1"] by (simp add: of_nat_diff)

lemma slice_0_pred2: "2 \<le> k \<Longrightarrow> slice s 0 (int k - 2) = take (k - 2) s"
  using slice_0_int [of s "k - 2"] by (simp add: of_nat_diff)

lemma slice_prev2: "2 \<le> k \<Longrightarrow> slice s (int k - 2) (int k) = take 2 (drop (k - 2) s)"
proof -
  assume k: "2 \<le> k"
  then have e: "int k - 2 = int (k - 2)" by simp
  show ?thesis
    unfolding slice_def e sliceIndex_int
    by (cases "k \<le> length s") (use k in \<open>auto simp: min_def\<close>)
qed

lemma slice_prev2_one: "length (slice s (int 1 - 2) (int 1)) \<le> 1"
  by (simp add: slice_def sliceIndex_def)

lemma slice_prev2_zero: "slice s (int 0 - 2) (int 0) = []"
  by (simp add: slice_def sliceIndex_def)

lemma escape_needs_two: "slice s (int k - 2) (int k) = [a, b] \<Longrightarrow> 2 \<le> k"
proof (rule ccontr)
  assume h: "slice s (int k - 2) (int k) = [a, b]" and "\<not> 2 \<le> k"
  then have "k = 0 \<or> k = 1" by arith
  then show False
  proof
    assume "k = 0" with h slice_prev2_zero [of s] show False by simp
  next
    assume "k = 1" with h slice_prev2_one [of s] show False by simp
  qed
qed

lemma slice_prev2_escaped:
  assumes "k \<le> length s"
  shows "slice s (int k - 2) (int k) = [a, b] \<longleftrightarrow> 2 \<le> k \<and> s ! (k - 2) = a \<and> s ! (k - 1) = b"
proof (cases "2 \<le> k")
  case False
  then show ?thesis using escape_needs_two [of s k a b] by auto
next
  case True
  define j where "j = k - 2"
  have j: "Suc (Suc j) \<le> length s" "k - Suc 0 = Suc j" "k - 2 = j"
    using True assms by (simp_all add: j_def)
  have "drop j s = s ! j # s ! Suc j # drop (Suc (Suc j)) s"
    using j(1) by (simp add: Cons_nth_drop_Suc)
  then have "take 2 (drop (k - 2) s) = [s ! (k - 2), s ! (k - 1)]"
    by (simp add: j)
  then show ?thesis
    using True by (simp add: slice_prev2)
qed

subsection \<open>Lines and line breaks\<close>

lemma lineAt_in_range [simp]: "i < length ls \<Longrightarrow> lineAt ls i = Some (ls ! i)"
  by (simp add: lineAt_def)

lemma potentialLine_eq: "potentialLine line cx ch = take cx line @ processedChar ch @ drop cx line"
  by (simp add: potentialLine_def)

lemma breakLine_lines:
  "cursorY w < length (lines w) \<Longrightarrow>
   lines (breakLine line w) =
     take (cursorY w) (lines w) @ [take (cursorX w) line, drop (cursorX w) line] @
     drop (Suc (cursorY w)) (lines w)"
  by (simp add: breakLine_def spliceInsert_def upd_conv_take_nth_drop)

lemma breakLine_fields [simp]:
  "cursorY (breakLine line w) = cursorY w + 1"
  "cursorX (breakLine line w) = 0"
  "maxLines (breakLine line w) = maxLines w"
  "length (lines (breakLine line w)) = Suc (length (lines w))"
  "lastInputValue (breakLine line w) = lastInputValue w"
  "inputValue (breakLine line w) = inputValue w"
  "isComposing (breakLine line w) = isComposing w"
  by (simp_all add: breakLine_def spliceInsert_def)

lemma breakLine_new_line:
  "cursorY w < length (lines w) \<Longrightarrow>
   lines (breakLine line w) ! (cursorY w + 1) = drop (cursorX w) line"
  by (simp add: breakLine_lines nth_append)

lemma merge_lines:
  assumes "cursorX w = 0 \<and> 0 < cursorY w" and "cursorY w < length (lines w)"
  shows "spliceRemove ((lines w)[cursorY w - 1 := lines w ! (cursorY w - 1) @ lines w ! cursorY w]) (cursorY w) =
          take (cursorY w - 1) (lines w) @ [lines w ! (cursorY w - 1) @ lines w ! cursorY w] @
          drop (cursorY w + 1) (lines w)"
proof -
  obtain j where j: "cursorY w = Suc j" using assms(1) by (cases "cursorY w") auto
  have "take (Suc j) ((lines w)[j := lines w ! j @ lines w ! Suc j]) =
        take j (lines w) @ [lines w ! j @ lines w ! Suc j]"
    using assms(2) j by (simp add: take_Suc_conv_app_nth)
  then show ?thesis by (simp add: spliceRemove_def j)
qed

subsection \<open>The operations keep a window well-formed\<close>

lemma breakLine_wellFormed:
  assumes "wellFormed w" and "length (lines w) < maxLines w"
  shows "wellFormed (breakLine (lines w ! cursorY w) w)"
proof -
  from assms have cy: "cursorY w < length (lines w)" by (simp add: wellFormed_def)
  have "lines (breakLine (lines w ! cursorY w) w) ! (cursorY w + 1) = drop (cursorX w) (lines w ! cursorY w)"
    using cy by (simp add: breakLine_lines nth_append)
  then show ?thesis
    using assms cy by (simp add: wellFormed_def)
qed

lemma processChar_wellFormed:
  "wellFormed w \<Longrightarrow> \<exists>w'. processChar tw maxWidth ch w = Inr w' \<and> wellFormed w' \<and> maxLines w' = maxLines w"
proof (induction tw maxWidth ch w rule: processChar.induct)
  case (1 tw maxWidth ch w)
  from "1.prems" have cy: "cursorY w < length (lines w)" by (simp add: wellFormed_def)
  let ?line = "lines w ! cursorY w"
  show ?case
  proof (cases "maxWidth < tw (potentialLine ?line (cursorX w) ch)")
    case over: True
    show ?thesis
    proof (cases "length (lines w) < maxLines w")
      case True
      have "wellFormed (breakLine ?line w)"
        using "1.prems" True by (rule breakLine_wellFormed)
      from "1.IH" [OF lineAt_in_range [OF cy] over True this]
      show ?thesis
        using cy over True by (subst processChar.simps) simp
    next
      case False
      then show ?thesis
        using cy over "1.prems" by (subst processChar.simps) simp
    qed
  next
    case False
    have "wellFormed (w\<lparr> lines := (lines w)[cursorY w := potentialLine ?line (cursorX w) ch],
                       cursorX := cursorX w + length (processedChar ch) \<rparr>)"
      using "1.prems" by (simp add: wellFormed_def potentialLine_eq)
    then show ?thesis
      using cy False by (subst processChar.simps) simp
  qed
qed

lemma processBackspace_wellFormed:
  assumes "wellFormed w"
  shows "\<exists>w'. processBackspace w = Inr w' \<and> wellFormed w' \<and> maxLines w' = maxLines w"
proof -
  from assms have cy: "cursorY w < length (lines w)"
    and cx: "cursorX w \<le> length (lines w ! cursorY w)"
    and n: "length (lines w) \<le> maxLines w"
    by (simp_all add: wellFormed_def)
  let ?line = "lines w ! cursorY w"
  show ?thesis
  proof (cases "0 < cursorX w")
    case True
    show ?thesis
    proof (cases "slice ?line (int (cursorX w) - 2) (int (cursorX w)) = [backslash, backslash]")
      case esc: True
      then have "2 \<le> cursorX w" by (rule escape_needs_two)
      then show ?thesis
        using True esc cy cx n by (simp add: processBackspace_def wellFormed_def slice_0_pred2)
    next
      case False
      then show ?thesis
        using True cy cx n by (simp add: processBackspace_def wellFormed_def slice_0_pred)
    qed
  next
    case cx0: False
    show ?thesis
    proof (cases "0 < cursorY w")
      case True
      then have p: "cursorY w - 1 < length (lines w)" using cy by simp
      have "spliceRemove ((lines w)[cursorY w - 1 := lines w ! (cursorY w - 1) @ ?line]) (cursorY w) ! (cursorY w - 1)
            = lines w ! (cursorY w - 1) @ ?line"
        using True cy by (simp add: spliceRemove_def nth_append)
      then show ?thesis
        using True cx0 cy n p by (auto simp add: processBackspace_def wellFormed_def spliceRemove_def)
    next
      case False
      then show ?thesis using cx0 assms by (simp add: processBackspace_def)
    qed
  qed
qed

lemma processNewLine_wellFormed:
  assumes "wellFormed w"
  shows "\<exists>w'. processNewLine w = Inr w' \<and> wellFormed w' \<and> maxLines w' = maxLines w"
proof (cases "maxLines w \<le> length (lines w)")
  case True
  then show ?thesis using assms by (simp add: processNewLine_def)
next
  case False
  then have "wellFormed (breakLine (lines w ! cursorY w) w)"
    using assms by (intro breakLine_wellFormed) simp_all
  then show ?thesis
    using False assms by (simp add: processNewLine_def wellFormed_def)
qed

lemma moveCursorLeft_wellFormed:
  "wellFormed w \<Longrightarrow> \<exists>w'. moveCursorLeft w = Inr w' \<and> wellFormed w' \<and> maxLines w' = maxLines w"
  by (auto simp: moveCursorLeft_def wellFormed_def)

lemma moveCursorRight_wellFormed:
  "wellFormed w \<Longrightarrow> \<exists>w'. moveCursorRight w = Inr w' \<and> wellFormed w' \<and> maxLines w' = maxLines w"
  by (auto simp: moveCursorRight_def wellFormed_def)

lemma moveCursorUp_wellFormed:
  "wellFormed w \<Longrightarrow> \<exists>w'. moveCursorUp w = Inr w' \<and> wellFormed w' \<and> maxLines w' = maxLines w"
  by (auto simp: moveCursorUp_def wellFormed_def)

lemma moveCursorDown_wellFormed:
  "wellFormed w \<Longrightarrow> \<exists>w'. moveCursorDown w = Inr w' \<and> wellFormed w' \<and> maxLines w' = maxLines w"
  by (auto simp: moveCursorDown_def wellFormed_def)

lemma touchScan_le: "bestPos \<le> length line \<Longrightarrow> touchScan fl tw line x i bestPos \<le> length line"
proof (induction fl tw line x i bestPos rule: touchScan.induct)
  case (1 fl tw line x i bestPos)
  then show ?case
    by (subst touchScan.simps) auto
qed

lemma moveCursorToTouch_wellFormed:
  assumes "wellFormed w" and "0 \<le> y" and "0 < lineHeight"
  shows "\<exists>w'. moveCursorToTouch fl tw lineHeight x y w = Inr w' \<and> wellFormed w' \<and> maxLines w' = maxLines w"
proof -
  have r: "0 \<le> \<lfloor>y / lineHeight\<rfloor>" using assms by simp
  show ?thesis
  proof (cases "\<lfloor>y / lineHeight\<rfloor> < int (length (lines w))")
    case True
    then have i: "nat \<lfloor>y / lineHeight\<rfloor> < length (lines w)" using r by linarith
    have "touchScan fl tw (lines w ! nat \<lfloor>y / lineHeight\<rfloor>) x 0 0 \<le> length (lines w ! nat \<lfloor>y / lineHeight\<rfloor>)"
      by (rule touchScan_le) simp
    then show ?thesis
      using True r i assms(1) by (simp add: moveCursorToTouch_def Let_def wellFormed_def)
  next
    case False
    then show ?thesis using assms(1) by (simp add: moveCursorToTouch_def Let_def)
  qed
qed

lemma initialize_wellFormed: "1 \<le> n \<Longrightarrow> wellFormed (initialize n)"
  by (simp add: wellFormed_def initialize_def)

lemma applyOperation_wellFormed:
  assumes "wellFormed w" and "tapBelowTop operation" and "0 < lineHeight"
  shows "\<exists>w'. applyOperation fl tw maxWidth lineHeight operation w = Inr w' \<and>
           wellFormed w' \<and> maxLines w' = maxLines w"
proof (cases operation)
  case (InsertChar ch)
  then show ?thesis using processChar_wellFormed [OF assms(1)] by simp
next
  case DeleteLeft
  then show ?thesis using processBackspace_wellFormed [OF assms(1)] by simp
next
  case NewLine
  then show ?thesis using processNewLine_wellFormed [OF assms(1)] by simp
next
  case MoveLeft
  then show ?thesis using moveCursorLeft_wellFormed [OF assms(1)] by simp
next
  case MoveRight
  then show ?thesis using moveCursorRight_wellFormed [OF assms(1)] by simp
next
  case MoveUp
  then show ?thesis using moveCursorUp_wellFormed [OF assms(1)] by simp
next
  case MoveDown
  then show ?thesis using moveCursorDown_wellFormed [OF assms(1)] by simp
next
  case (Tap x y)
  then show ?thesis
    using moveCursorToTouch_wellFormed [OF assms(1) _ assms(3)] assms(2) by simp
qed

lemma run_wellFormed:
  assumes "wellFormed w" and "\<forall>operation \<in> set ops. tapBelowTop operation" and "0 < lineHeight"
  shows "\<exists>w'. run fl tw maxWidth lineHeight ops w = Inr w' \<and> wellFormed w' \<and> maxLines w' = maxLines w"
  using assms(1,2)
proof (induction ops arbitrary: w)
  case Nil
  then show ?case by simp
next
  case (Cons operation rest)
  from Cons.prems obtain w1 where
    s: "applyOperation fl tw maxWidth lineHeight operation w = Inr w1"
    and w1: "wellFormed w1" and m: "maxLines w1 = maxLines w"
    using applyOperation_wellFormed [of w operation lineHeight fl tw maxWidth] assms(3) by auto
  from Cons.IH [OF w1] Cons.prems(2) m s show ?case by auto
qed

subsection \<open>The scan of a pointer tap\<close>

lemma touchScan_first:
  "i \<le> length line \<Longrightarrow> bestPos = i \<Longrightarrow>
   (let k = touchScan fl tw line x i bestPos in
      i \<le> k \<and> k \<le> length line \<and>
      (k < length line \<longrightarrow> x < fl (tw (take k line) + fl (tw [line ! k] / 2))) \<and>
      (\<forall>j. i \<le> j \<and> j < k \<longrightarrow> \<not> x < fl (tw (take j line) + fl (tw [line ! j] / 2))))"
proof (induction fl tw line x i bestPos rule: touchScan.induct)
  case (1 fl tw line x i bestPos)
  show ?case
  proof (cases "i < length line")
    case False
    with "1.prems" show ?thesis by (subst touchScan.simps) (simp add: Let_def)
  next
    case True
    show ?thesis
    proof (cases "x < fl (tw (take i line) + fl (tw [line ! i] / 2))")
      case h: True
      with True show ?thesis by (subst touchScan.simps) (simp add: Let_def)
    next
      case h: False
      from "1.IH" [OF True h] True
      have ih: "let k = touchScan fl tw line x (i + 1) (i + 1) in
          i + 1 \<le> k \<and> k \<le> length line \<and>
          (k < length line \<longrightarrow> x < fl (tw (take k line) + fl (tw [line ! k] / 2))) \<and>
          (\<forall>j. i + 1 \<le> j \<and> j < k \<longrightarrow> \<not> x < fl (tw (take j line) + fl (tw [line ! j] / 2)))"
        by simp
      have e: "touchScan fl tw line x i bestPos = touchScan fl tw line x (i + 1) (i + 1)"
        using True h by (subst touchScan.simps) simp
      have "\<And>j k. i \<le> j \<Longrightarrow> j < k \<Longrightarrow> j = i \<or> i + 1 \<le> j" by arith
      with ih h show ?thesis
        unfolding e Let_def by (metis Suc_eq_plus1 Suc_leD)
    qed
  qed
qed

text \<open>
  The column of a tap in Reishandy\_TextInput.js for any text measurement: one to the left
  of the index \<open>k\<close> that the scan finds, where \<open>k\<close> is the first index whose character has
  the tap in its left half, or the length of the line.
\<close>

lemma moveCursorToTouch_steps_left:
  assumes "0 < lineHeight" and "0 \<le> y" and "\<lfloor>y / lineHeight\<rfloor> < int (length (lines w))"
  shows "\<exists>k. k \<le> length (lines w ! nat \<lfloor>y / lineHeight\<rfloor>) \<and>
            (k < length (lines w ! nat \<lfloor>y / lineHeight\<rfloor>) \<longrightarrow>
               x < fl (tw (take k (lines w ! nat \<lfloor>y / lineHeight\<rfloor>)) +
                       fl (tw [lines w ! nat \<lfloor>y / lineHeight\<rfloor> ! k] / 2))) \<and>
            (\<forall>i<k. \<not> x < fl (tw (take i (lines w ! nat \<lfloor>y / lineHeight\<rfloor>)) +
                               fl (tw [lines w ! nat \<lfloor>y / lineHeight\<rfloor> ! i] / 2))) \<and>
            moveCursorToTouch fl tw lineHeight x y w =
              Inr (w\<lparr> cursorY := nat \<lfloor>y / lineHeight\<rfloor>, cursorX := k - 1 \<rparr>)"
proof -
  let ?r = "nat \<lfloor>y / lineHeight\<rfloor>"
  let ?line = "lines w ! ?r"
  have r: "0 \<le> \<lfloor>y / lineHeight\<rfloor>" using assms(1,2) by simp
  have step: "moveCursorToTouch fl tw lineHeight x y w =
                Inr (w\<lparr> cursorY := ?r, cursorX := touchScan fl tw ?line x 0 0 - 1 \<rparr>)"
    using r assms(3) by (simp add: moveCursorToTouch_def Let_def nat_diff_distrib')
  have scan: "let k = touchScan fl tw ?line x 0 0 in
      0 \<le> k \<and> k \<le> length ?line \<and>
      (k < length ?line \<longrightarrow> x < fl (tw (take k ?line) + fl (tw [?line ! k] / 2))) \<and>
      (\<forall>j. 0 \<le> j \<and> j < k \<longrightarrow> \<not> x < fl (tw (take j ?line) + fl (tw [?line ! j] / 2)))"
    by (rule touchScan_first) simp_all
  show ?thesis
    using scan step unfolding Let_def by (intro exI [of _ "touchScan fl tw ?line x 0 0"]) simp
qed

lemma processChar_depth_le:
  "processChar_depth tw maxWidth ch w \<le> maxLines w - length (lines w)"
proof (induction tw maxWidth ch w rule: processChar_depth.induct)
  case (1 tw maxWidth ch w)
  show ?case
  proof (cases "lineAt (lines w) (cursorY w)")
    case None
    then show ?thesis by (subst processChar_depth.simps) simp
  next
    case (Some line)
    show ?thesis
    proof (cases "maxWidth < tw (potentialLine line (cursorX w) ch) \<and> length (lines w) < maxLines w")
      case True
      with "1.IH" [OF Some] have "processChar_depth tw maxWidth ch (breakLine line w)
          \<le> maxLines w - Suc (length (lines w))" by simp
      with True Some show ?thesis by (subst processChar_depth.simps) auto
    next
      case False
      with Some show ?thesis by (subst processChar_depth.simps) auto
    qed
  qed
qed

lemma processChar_splits:
  "cursorY w < length (lines w) \<Longrightarrow>
   \<exists>w'. processChar tw maxWidth ch w = Inr w' \<and>
        length (lines w') = length (lines w) + processChar_depth tw maxWidth ch w"
proof (induction tw maxWidth ch w rule: processChar.induct)
  case (1 tw maxWidth ch w)
  let ?line = "lines w ! cursorY w"
  have at: "lineAt (lines w) (cursorY w) = Some ?line" using "1.prems" by simp
  show ?case
  proof (cases "maxWidth < tw (potentialLine ?line (cursorX w) ch)")
    case over: True
    show ?thesis
    proof (cases "length (lines w) < maxLines w")
      case True
      have "cursorY (breakLine ?line w) < length (lines (breakLine ?line w))"
        using "1.prems" by simp
      from "1.IH" [OF at over True this] obtain w' where
        "processChar tw maxWidth ch (breakLine ?line w) = Inr w'"
        "length (lines w') = Suc (length (lines w)) + processChar_depth tw maxWidth ch (breakLine ?line w)"
        by auto
      then show ?thesis
        using at over True
        by (subst processChar.simps, subst processChar_depth.simps) simp
    next
      case False
      then show ?thesis
        using at over by (subst processChar.simps, subst processChar_depth.simps) simp
    qed
  next
    case False
    then show ?thesis
      using at by (subst processChar.simps, subst processChar_depth.simps) simp
  qed
qed

lemma processChar_fits:
  assumes "cursorY w < length (lines w)"
    and "\<not> maxWidth < tw (potentialLine (lines w ! cursorY w) (cursorX w) ch)"
  shows "processChar tw maxWidth ch w =
           Inr (w\<lparr> lines := (lines w)[cursorY w := potentialLine (lines w ! cursorY w) (cursorX w) ch],
                   cursorX := cursorX w + length (processedChar ch) \<rparr>)"
    and "processChar_depth tw maxWidth ch w = 0"
  using assms by (simp_all add: processChar.simps processChar_depth.simps)

lemma processChar_breaks:
  assumes "cursorY w < length (lines w)"
    and "maxWidth < tw (potentialLine (lines w ! cursorY w) (cursorX w) ch)"
    and "length (lines w) < maxLines w"
  shows "processChar tw maxWidth ch w = processChar tw maxWidth ch (breakLine (lines w ! cursorY w) w)"
    and "processChar_depth tw maxWidth ch w =
           Suc (processChar_depth tw maxWidth ch (breakLine (lines w ! cursorY w) w))"
  using assms by (simp_all add: processChar.simps [of _ _ _ w] processChar_depth.simps [of _ _ _ w])

lemma processChar_one_split:
  assumes "cursorY w < length (lines w)"
    and "maxWidth < tw (potentialLine (lines w ! cursorY w) (cursorX w) ch)"
    and "length (lines w) < maxLines w"
    and "tw (processedChar ch @ drop (cursorX w) (lines w ! cursorY w)) \<le> maxWidth"
  shows "processChar tw maxWidth ch w =
           Inr (w\<lparr> lines := take (cursorY w) (lines w) @
                              [take (cursorX w) (lines w ! cursorY w),
                               processedChar ch @ drop (cursorX w) (lines w ! cursorY w)] @
                              drop (Suc (cursorY w)) (lines w),
                   cursorY := cursorY w + 1,
                   cursorX := length (processedChar ch) \<rparr>)"
    and "processChar_depth tw maxWidth ch w = 1"
proof -
  let ?line = "lines w ! cursorY w"
  let ?b = "breakLine ?line w"
  have cy: "cursorY ?b < length (lines ?b)" using assms(1) by simp
  have new: "lines ?b ! Suc (cursorY w) = drop (cursorX w) ?line"
    using breakLine_new_line [OF assms(1)] by simp
  have fits: "\<not> maxWidth < tw (potentialLine (lines ?b ! cursorY ?b) (cursorX ?b) ch)"
    using assms(4) by (simp add: new potentialLine_eq)
  note f = processChar_fits [where w = "?b" and tw = tw and maxWidth = maxWidth and ch = ch,
      OF cy fits]
  have b: "processChar tw maxWidth ch w = processChar tw maxWidth ch ?b"
    using processChar_breaks(1) [where tw = tw and maxWidth = maxWidth, OF assms(1,2,3)] .
  have u: "(take (cursorY w) (lines w) @ [take (cursorX w) ?line, drop (cursorX w) ?line] @
            drop (Suc (cursorY w)) (lines w))[Suc (cursorY w) := v] =
           take (cursorY w) (lines w) @ [take (cursorX w) ?line, v] @
            drop (Suc (cursorY w)) (lines w)" for v
    using assms(1) by (simp add: list_update_append)
  show "processChar tw maxWidth ch w =
           Inr (w\<lparr> lines := take (cursorY w) (lines w) @
                              [take (cursorX w) ?line, processedChar ch @ drop (cursorX w) ?line] @
                              drop (Suc (cursorY w)) (lines w),
                   cursorY := cursorY w + 1,
                   cursorX := length (processedChar ch) \<rparr>)"
    unfolding b f(1)
    using assms(1) by (simp add: new potentialLine_eq) (simp add: breakLine_def spliceInsert_def breakLine_lines u upd_conv_take_nth_drop)
  show "processChar_depth tw maxWidth ch w = 1"
    using processChar_breaks(2) [where tw = tw and maxWidth = maxWidth, OF assms(1,2,3)] f(2)
    by simp
qed

text \<open>
  Where the wrap keeps the character: with a fixed-width font, a current line exactly at
  capacity, a buffer below \<open>maxLines\<close> and the cursor at a column of at least 1 (at least 2
  for a backslash, which is inserted doubled), the line is split once at the cursor and
  the inserted text starts the new line.
\<close>

lemma wrap_after_first_column:
  assumes "cursorY w < length (lines w)"
    and "cursorX w \<le> length (lines w ! cursorY w)"
    and "0 < cw"
    and "fixedWidth cw (lines w ! cursorY w) \<le> maxWidth"
    and "maxWidth < fixedWidth cw (lines w ! cursorY w) + cw"
    and "length (lines w) < maxLines w"
    and "length (processedChar [c]) \<le> cursorX w"
  shows "\<exists>w'. processChar (fixedWidth cw) maxWidth [c] w = Inr w' \<and>
           lines w' = take (cursorY w) (lines w) @
                      [take (cursorX w) (lines w ! cursorY w),
                       processedChar [c] @ drop (cursorX w) (lines w ! cursorY w)] @
                      drop (Suc (cursorY w)) (lines w) \<and>
           cursorY w' = cursorY w + 1 \<and>
           cursorX w' = length (processedChar [c]) \<and>
           lines w' ! cursorY w @ lines w' ! (cursorY w + 1) =
             take (cursorX w) (lines w ! cursorY w) @ processedChar [c] @
             drop (cursorX w) (lines w ! cursorY w) \<and>
           (c \<noteq> backslash \<longrightarrow> processedChar [c] = [c])"
proof -
  let ?line = "lines w ! cursorY w"
  let ?pc = "processedChar [c]"
  have pc: "1 \<le> length ?pc" by (simp add: processedChar_def)
  have "fixedWidth cw ?line + cw \<le> fixedWidth cw (potentialLine ?line (cursorX w) [c])"
  proof -
    have "length (potentialLine ?line (cursorX w) [c]) = length ?line + length ?pc"
      using assms(2) by (simp add: potentialLine_eq)
    then have "fixedWidth cw (potentialLine ?line (cursorX w) [c]) =
               fixedWidth cw ?line + cw * of_nat (length ?pc)"
      by (simp add: fixedWidth_def algebra_simps)
    moreover have "cw * 1 \<le> cw * of_nat (length ?pc)"
      using pc assms(3) by (intro mult_left_mono) simp_all
    ultimately show ?thesis by simp
  qed
  then have over: "maxWidth < fixedWidth cw (potentialLine ?line (cursorX w) [c])"
    using assms(5) by simp
  have "fixedWidth cw (?pc @ drop (cursorX w) ?line) \<le> fixedWidth cw ?line"
  proof -
    have "length (?pc @ drop (cursorX w) ?line) \<le> length ?line"
      using assms(2,7) by simp
    then have "(of_nat (length (?pc @ drop (cursorX w) ?line)) :: rat) \<le> of_nat (length ?line)"
      by (simp only: of_nat_le_iff)
    then show ?thesis
      unfolding fixedWidth_def using assms(3) by (intro mult_left_mono) simp_all
  qed
  then have fits: "fixedWidth cw (?pc @ drop (cursorX w) ?line) \<le> maxWidth"
    using assms(4) by simp
  have n: "(take (cursorY w) (lines w) @ [take (cursorX w) ?line, ?pc @ drop (cursorX w) ?line] @
            drop (Suc (cursorY w)) (lines w)) ! cursorY w = take (cursorX w) ?line"
    "(take (cursorY w) (lines w) @ [take (cursorX w) ?line, ?pc @ drop (cursorX w) ?line] @
            drop (Suc (cursorY w)) (lines w)) ! Suc (cursorY w) = ?pc @ drop (cursorX w) ?line"
    using assms(1) by (simp_all add: nth_append)
  show ?thesis
    using processChar_one_split(1) [where tw = "fixedWidth cw" and maxWidth = maxWidth,
        OF assms(1) over assms(6) fits] n
    by (simp add: processedChar_def)
qed

subsection \<open>Runs of insertions\<close>

lemma escapeBackslashes_Cons:
  "escapeBackslashes (c # t) = processedChar [c] @ escapeBackslashes t"
  by (simp add: escapeBackslashes_def)

lemma escapeBackslashes_plain: "backslash \<notin> set t \<Longrightarrow> escapeBackslashes t = t"
  by (induction t) (auto simp: escapeBackslashes_def processedChar_def)

lemma processChars_on_last_line:
  assumes "lines w = [l]" and "cursorY w = 0" and "cursorX w = length l"
    and "\<forall>k<length t. tw (l @ escapeBackslashes (take (Suc k) t)) \<le> maxWidth"
  shows "processChars tw maxWidth t w =
           Inr (w\<lparr> lines := [l @ escapeBackslashes t],
                   cursorX := length l + length (escapeBackslashes t) \<rparr>)"
  using assms
proof (induction t arbitrary: w l)
  case Nil
  then show ?case by (simp add: escapeBackslashes_def)
next
  case (Cons c t)
  let ?pc = "processedChar [c]"
  let ?w1 = "w\<lparr> lines := [l @ ?pc], cursorX := length l + length ?pc \<rparr>"
  have cy: "cursorY w < length (lines w)" using Cons.prems by simp
  have "tw (l @ escapeBackslashes (take (Suc 0) (c # t))) \<le> maxWidth"
    using Cons.prems(4) by blast
  then have fits: "\<not> maxWidth < tw (potentialLine (lines w ! cursorY w) (cursorX w) [c])"
    using Cons.prems(1,2,3) by (simp add: potentialLine_eq escapeBackslashes_def)
  have step: "processChar tw maxWidth [c] w = Inr ?w1"
    using processChar_fits(1) [where tw = tw and maxWidth = maxWidth, OF cy fits] Cons.prems(1,2,3)
    by (simp add: potentialLine_eq)
  have rest: "\<forall>k<length t. tw ((l @ ?pc) @ escapeBackslashes (take (Suc k) t)) \<le> maxWidth"
  proof (intro allI impI)
    fix k assume "k < length t"
    then have "Suc k < length (c # t)" by simp
    with Cons.prems(4) have "tw (l @ escapeBackslashes (take (Suc (Suc k)) (c # t))) \<le> maxWidth"
      by blast
    then show "tw ((l @ ?pc) @ escapeBackslashes (take (Suc k) t)) \<le> maxWidth"
      by (simp add: escapeBackslashes_Cons)
  qed
  have "processChars tw maxWidth t ?w1 =
          Inr (?w1\<lparr> lines := [(l @ ?pc) @ escapeBackslashes t],
                     cursorX := length (l @ ?pc) + length (escapeBackslashes t) \<rparr>)"
    using Cons.prems(2) by (intro Cons.IH rest) simp_all
  then show ?case
    using step by (simp add: escapeBackslashes_Cons add.assoc)
qed

subsection \<open>Keys and the loops of a reconciliation pass\<close>

lemma clearInput_Inr [simp]:
  "clearInput (Inr w) = Inr (w\<lparr> lastInputValue := [], inputValue := [] \<rparr>)"
  by (simp add: clearInput_def)

lemma processBackspace_input:
  "processBackspace w = Inr w' \<Longrightarrow> inputValue w' = inputValue w \<and> lastInputValue w' = lastInputValue w"
  by (auto simp: processBackspace_def Let_def split: if_splits option.splits)

lemma edits_without_newline:
  "newline \<notin> set t \<Longrightarrow>
   map (\<lambda>c. if c = newline then NewLine else InsertChar [c]) t = map (\<lambda>c. InsertChar [c]) t"
  by (induction t) auto

lemma processChars_run:
  "processChars tw maxWidth s w = run fl tw maxWidth lineHeight (map (\<lambda>c. InsertChar [c]) s) w"
  by (induction s arbitrary: w) (auto split: sum.splits)

lemma backspaceLoop_run:
  "backspaceLoop i deletedCount w =
     run fl tw maxWidth lineHeight (replicate (deletedCount - i) DeleteLeft) w"
proof (induction i deletedCount w rule: backspaceLoop.induct)
  case (1 i deletedCount w)
  show ?case
  proof (cases "i < deletedCount")
    case True
    then have r: "replicate (deletedCount - i) DeleteLeft =
                  DeleteLeft # replicate (deletedCount - (i + 1)) DeleteLeft"
      by (metis Suc_diff_Suc Suc_eq_plus1 replicate_Suc)
    show ?thesis
    proof (cases "processBackspace w")
      case (Inl e)
      with True show ?thesis by (subst backspaceLoop.simps) (simp add: r)
    next
      case (Inr w')
      with True "1.IH" [OF True Inr] show ?thesis
        by (subst backspaceLoop.simps) (simp add: r)
    qed
  next
    case False
    then show ?thesis by (subst backspaceLoop.simps) simp
  qed
qed

subsection \<open>Deletion in Reishandy\_TextInput\_old.js\<close>

lemma processBackspace_old_cases:
  assumes "cursorY w < length (lines w)" and "cursorX w \<le> length (lines w ! cursorY w)"
  shows "(0 < cursorX w \<longrightarrow>
            processBackspace_old w =
              Inr (w\<lparr> lines := (lines w)[cursorY w :=
                                  take (cursorX w - 1) (lines w ! cursorY w) @
                                  drop (cursorX w) (lines w ! cursorY w)],
                      cursorX := cursorX w - 1 \<rparr>)) \<and>
         (cursorX w = 0 \<and> 0 < cursorY w \<longrightarrow>
            processBackspace_old w =
              Inr (w\<lparr> cursorX := length (lines w ! (cursorY w - 1)),
                      lines := take (cursorY w - 1) (lines w) @
                               [lines w ! (cursorY w - 1) @ lines w ! cursorY w] @
                               drop (cursorY w + 1) (lines w),
                      cursorY := cursorY w - 1 \<rparr>)) \<and>
         (cursorX w = 0 \<and> cursorY w = 0 \<longrightarrow> processBackspace_old w = Inr w)"
proof (intro conjI impI)
  let ?line = "lines w ! cursorY w"
  assume "0 < cursorX w"
  then show "processBackspace_old w =
            Inr (w\<lparr> lines := (lines w)[cursorY w := take (cursorX w - 1) ?line @ drop (cursorX w) ?line],
                    cursorX := cursorX w - 1 \<rparr>)"
    using assms(1) by (simp add: processBackspace_old_def slice_0_pred)
next
  let ?line = "lines w ! cursorY w"
  assume h: "cursorX w = 0 \<and> 0 < cursorY w"
  then have p: "cursorY w - 1 < length (lines w)" using assms(1) by simp
  have "spliceRemove ((lines w)[cursorY w - 1 := lines w ! (cursorY w - 1) @ ?line]) (cursorY w) =
        take (cursorY w - 1) (lines w) @ [lines w ! (cursorY w - 1) @ ?line] @
        drop (cursorY w + 1) (lines w)"
    using h assms(1) by (rule merge_lines)
  then show "processBackspace_old w =
            Inr (w\<lparr> cursorX := length (lines w ! (cursorY w - 1)),
                    lines := take (cursorY w - 1) (lines w) @
                             [lines w ! (cursorY w - 1) @ ?line] @
                             drop (cursorY w + 1) (lines w),
                    cursorY := cursorY w - 1 \<rparr>)"
    using h assms(1) p by (simp add: processBackspace_old_def)
next
  assume "cursorX w = 0 \<and> cursorY w = 0"
  then show "processBackspace_old w = Inr w" by (simp add: processBackspace_old_def)
qed

subsection \<open>Pointer taps in TextInput.js\<close>

lemma maxValue_large: "1000 < maxValue"
proof -
  have "(2::rat) ^ 971 * 2 \<le> 2 ^ 1024"
    using power_increasing [of 972 1024 "2::rat"] by simp
  moreover have "(1000::rat) < 2 ^ 10" by simp
  moreover have "(2::rat) ^ 10 \<le> 2 ^ 971"
    by (rule power_increasing) simp_all
  ultimately show ?thesis unfolding maxValue_def by linarith
qed

lemma moveCursorToTouch_TextInput_examples:
  assumes "0 < lineHeight" and "0 \<le> y" and "\<lfloor>y / lineHeight\<rfloor> < int (length (lines w))"
    and "lines w ! nat \<lfloor>y / lineHeight\<rfloor> = ''ab''"
    and "\<And>n::int. \<bar>n\<bar> \<le> 25 \<Longrightarrow> fl (of_int n) = of_int n"
  shows "moveCursorToTouch_TextInput fl (fixedWidth 10) lineHeight 4 y w =
           Inr (w\<lparr> cursorY := nat \<lfloor>y / lineHeight\<rfloor>, cursorX := 0 \<rparr>)"
    and "moveCursorToTouch_TextInput fl (fixedWidth 10) lineHeight 16 y w =
           Inr (w\<lparr> cursorY := nat \<lfloor>y / lineHeight\<rfloor>, cursorX := 2 \<rparr>)"
    and "moveCursorToTouch_TextInput fl (fixedWidth 10) lineHeight 25 y w =
           Inr (w\<lparr> cursorY := nat \<lfloor>y / lineHeight\<rfloor>, cursorX := 2 \<rparr>)"
proof -
  have r: "0 \<le> \<lfloor>y / lineHeight\<rfloor>" using assms(1,2) by simp
  have m: "\<not> maxValue \<le> 4" "\<not> maxValue \<le> 16" "\<not> maxValue \<le> 25" "4 < maxValue" "16 < maxValue" "25 < maxValue"
    using maxValue_large by simp_all
  have f: "fl (- 4) = - 4" "fl 6 = 6" "fl 16 = 16" "fl (- 16) = - 16" "fl (- 6) = - 6" "fl 4 = 4"
    "fl (- 25) = - 25" "fl (- 15) = - 15" "fl (- 5) = - 5"
    using assms(5) [of "- 4"] assms(5) [of 6] assms(5) [of 16] assms(5) [of "- 16"]
      assms(5) [of "- 6"] assms(5) [of 4] assms(5) [of "- 25"] assms(5) [of "- 15"]
      assms(5) [of "- 5"]
    by simp_all
  have "nearestScan fl (fixedWidth 10) ''ab'' 4 0 0 maxValue = 0"
    "nearestScan fl (fixedWidth 10) ''ab'' 16 0 0 maxValue = 2"
    "nearestScan fl (fixedWidth 10) ''ab'' 25 0 0 maxValue = 2"
    using m by (simp_all add: nearestScan.simps fixedWidth_def f)
  then show "moveCursorToTouch_TextInput fl (fixedWidth 10) lineHeight 4 y w =
           Inr (w\<lparr> cursorY := nat \<lfloor>y / lineHeight\<rfloor>, cursorX := 0 \<rparr>)"
    and "moveCursorToTouch_TextInput fl (fixedWidth 10) lineHeight 16 y w =
           Inr (w\<lparr> cursorY := nat \<lfloor>y / lineHeight\<rfloor>, cursorX := 2 \<rparr>)"
    and "moveCursorToTouch_TextInput fl (fixedWidth 10) lineHeight 25 y w =
           Inr (w\<lparr> cursorY := nat \<lfloor>y / lineHeight\<rfloor>, cursorX := 2 \<rparr>)"
    using r assms(3,4) by (simp_all add: moveCursorToTouch_TextInput_def Let_def)
qed

section \<open>Claims\<close>

subsection \<open>C1\<close>

text \<open>
  C1. The claim is that after every operation of a sequence applied to a freshly
  initialised window the buffer holds between 1 and \<open>maxLines\<close> lines and the cursor is a
  position of the buffer. A pointer tap above the first line breaks it: with the line
  height 36 of the engine, a tap at \<open>y = -9\<close>, inside the top padding of the window, has
  the row \<open>-1\<close>; \<open>moveCursorToTouch\<close> stores this row as the cursor row and throws a
  \<open>TypeError\<close> on the missing line. (For sequences without such a tap the invariant
  holds: \<open>run_wellFormed\<close>.)
\<close>

theorem tap_above_first_line_throws:
  "moveCursorToTouch fl tw 36 x (-9) (initialize n) = Inl TypeError \<and>
   run fl tw maxWidth 36 [Tap x (-9)] (initialize n) = Inl TypeError"
  by (simp add: moveCursorToTouch_def initialize_def)

subsection \<open>C2\<close>

text \<open>
  C2, as the source has it. The observed string is the value of a single-line text input
  and holds no newline. A reconciliation pass \<open>processInputDifference\<close> on such a value runs
  the edits \<open>reconcileOperations previous current\<close> on the window and then stores \<open>current\<close>
  as the last observed value: for a longer \<open>current\<close> every character of
  \<open>current[len(previous):]\<close> goes through \<open>processChar\<close> in order (the line split that
  the edits have in place of the insertion of a newline does not arise); for a shorter one
  \<open>processBackspace\<close> runs \<open>len(previous) - len(current)\<close> times; for equal lengths no
  edit runs and the buffer and the cursor stay as they are. Where \<open>a\<close> and \<open>ab\<close> fit the
  available width, the observations \<open>"", "a", "ab", "a", ""\<close> on the initial window end in
  the initial window, whose text is empty, and the four changes run one insertion, one
  insertion, one deletion and one deletion.
\<close>

theorem processInputDifference_edits:
  "(newline \<notin> set (inputValue w) \<longrightarrow>
      processInputDifference tw maxWidth w =
        (case run fl tw maxWidth lineHeight
                (reconcileOperations (lastInputValue w) (inputValue w)) w of
           Inl e \<Rightarrow> Inl e
         | Inr w' \<Rightarrow> Inr (w'\<lparr> lastInputValue := inputValue w \<rparr>))) \<and>
   (length p < length c \<longrightarrow>
      reconcileOperations p c =
        map (\<lambda>ch. if ch = newline then NewLine else InsertChar [ch]) (drop (length p) c)) \<and>
   (length c < length p \<longrightarrow>
      reconcileOperations p c = replicate (length p - length c) DeleteLeft) \<and>
   (length c = length p \<longrightarrow> reconcileOperations p c = []) \<and>
   (length (inputValue w) = length (lastInputValue w) \<longrightarrow>
      processInputDifference tw maxWidth w = Inr (w\<lparr> lastInputValue := inputValue w \<rparr>)) \<and>
   (tw ''a'' \<le> maxWidth \<and> tw ''ab'' \<le> maxWidth \<longrightarrow>
      feed tw maxWidth [[], ''a'', ''ab'', ''a'', []] (initialize n) = Inr (initialize n) \<and>
      inputText (initialize n) = []) \<and>
   [reconcileOperations [] ''a'', reconcileOperations ''a'' ''ab'',
    reconcileOperations ''ab'' ''a'', reconcileOperations ''a'' []] =
     [[InsertChar ''a''], [InsertChar ''b''], [DeleteLeft], [DeleteLeft]]"
proof (intro conjI impI)
  assume nl: "newline \<notin> set (inputValue w)"
  then have "newline \<notin> set (drop (length (lastInputValue w)) (inputValue w))"
    by (meson in_set_dropD)
  then have e: "map (\<lambda>c. if c = newline then NewLine else InsertChar [c])
                  (drop (length (lastInputValue w)) (inputValue w)) =
                map (\<lambda>c. InsertChar [c]) (drop (length (lastInputValue w)) (inputValue w))"
    by (rule edits_without_newline)
  show "processInputDifference tw maxWidth w =
     (case run fl tw maxWidth lineHeight (reconcileOperations (lastInputValue w) (inputValue w)) w of
        Inl e \<Rightarrow> Inl e
      | Inr w' \<Rightarrow> Inr (w'\<lparr> lastInputValue := inputValue w \<rparr>))"
    using processChars_run [of tw maxWidth _ w fl lineHeight]
      backspaceLoop_run [of 0 _ w fl tw maxWidth lineHeight]
    by (simp add: processInputDifference_def reconcileOperations_def Let_def e)
next
  assume "length (inputValue w) = length (lastInputValue w)"
  then show "processInputDifference tw maxWidth w = Inr (w\<lparr> lastInputValue := inputValue w \<rparr>)"
    by (simp add: processInputDifference_def Let_def)
next
  assume h: "tw ''a'' \<le> maxWidth \<and> tw ''ab'' \<le> maxWidth"
  let ?w = "\<lambda>l v. \<lparr> maxLines = n, lines = [l], cursorX = length l, cursorY = 0,
                     isComposing = False, lastInputValue = v, inputValue = v \<rparr>"
  have s0: "inputEvent tw maxWidth [] (initialize n) = Inr (?w [] [])"
    by (simp add: inputEvent_def boundOnInputChange_def processInputDifference_def initialize_def
        Let_def)
  have s1: "inputEvent tw maxWidth ''a'' (?w [] []) = Inr (?w ''a'' ''a'')"
    using h by (simp add: inputEvent_def boundOnInputChange_def processInputDifference_def Let_def
        processChar.simps potentialLine_eq processedChar_def backslash_def
        sliceFrom_def sliceIndex_def)
  have s2: "inputEvent tw maxWidth ''ab'' (?w ''a'' ''a'') = Inr (?w ''ab'' ''ab'')"
    using h by (simp add: inputEvent_def boundOnInputChange_def processInputDifference_def Let_def
        processChar.simps potentialLine_eq processedChar_def backslash_def
        sliceFrom_def sliceIndex_def)
  have s3: "inputEvent tw maxWidth ''a'' (?w ''ab'' ''ab'') = Inr (?w ''a'' ''a'')"
    by (simp add: inputEvent_def boundOnInputChange_def processInputDifference_def Let_def
        backspaceLoop.simps processBackspace_def slice_def sliceFrom_def sliceIndex_def backslash_def)
  have s4: "inputEvent tw maxWidth [] (?w ''a'' ''a'') = Inr (?w [] [])"
    by (simp add: inputEvent_def boundOnInputChange_def processInputDifference_def Let_def
        backspaceLoop.simps processBackspace_def slice_def sliceFrom_def sliceIndex_def backslash_def)
  have e: "?w [] [] = initialize n" by (simp add: initialize_def)
  show "feed tw maxWidth [[], ''a'', ''ab'', ''a'', []] (initialize n) = Inr (initialize n)"
    using s0 s1 s2 s3 s4 unfolding e by simp
  show "inputText (initialize n) = []"
    by (simp add: inputText_def initialize_def)
qed (simp_all add: reconcileOperations_def newline_def)

theorem processInputDifference_edits_witness:
  "processInputDifference (fixedWidth 10) 100
     \<lparr> maxLines = 3, lines = [''a''], cursorX = 1, cursorY = 0,
       isComposing = False, lastInputValue = ''a'', inputValue = ''ab'' \<rparr> =
   Inr \<lparr> maxLines = 3, lines = [''ab''], cursorX = 2, cursorY = 0,
         isComposing = False, lastInputValue = ''ab'', inputValue = ''ab'' \<rparr> \<and>
   feed (fixedWidth 10) 100 [[], ''a'', ''ab'', ''a'', []] (initialize 3) = Inr (initialize 3) \<and>
   inputText (initialize 3) = []"
  using processInputDifference_edits [of
      "\<lparr> maxLines = 3, lines = [''a''], cursorX = 1, cursorY = 0,
         isComposing = False, lastInputValue = ''a'', inputValue = ''ab'' \<rparr>"
      "fixedWidth 10" 100 "\<lambda>q. q" 36 "''a''" "''ab''" 3]
  by (simp add: fixedWidth_def newline_def reconcileOperations_def processChar.simps
        potentialLine_eq processedChar_def backslash_def del: feed.simps)

text \<open>
  C2 as claimed has the observations \<open>"", "a", "ab", "a", ""\<close> end in the empty text
  whatever the available width. Where \<open>a\<close> fits and \<open>ab\<close> does not (characters 10 pixels
  wide, 15 pixels available, two lines allowed) the second insertion wraps \<open>b\<close> onto a new
  line, the first deletion removes \<open>b\<close> and the second one joins the two lines: the final
  text is \<open>a\<close>.
\<close>

theorem narrow_window_keeps_text_counterexample:
  "feed (fixedWidth 10) 15 [[], ''a'', ''ab'', ''a'', []] (initialize 2) =
     Inr \<lparr> maxLines = 2, lines = [''a''], cursorX = 1, cursorY = 0,
           isComposing = False, lastInputValue = [], inputValue = [] \<rparr> \<and>
   inputText \<lparr> maxLines = 2, lines = [''a''], cursorX = 1, cursorY = 0,
               isComposing = False, lastInputValue = [], inputValue = [] \<rparr> = ''a''"
  by (simp add: inputEvent_def boundOnInputChange_def processInputDifference_def initialize_def
        Let_def processChar.simps potentialLine_def processedChar_def fixedWidth_def
        breakLine_def spliceInsert_def spliceRemove_def backspaceLoop.simps processBackspace_def
        slice_def sliceFrom_def sliceIndex_def backslash_def inputText_def)

subsection \<open>C3\<close>

text \<open>
  C3. The claim is that a tap resolves to the first index \<open>i\<close> of the touched line with
  \<open>x < width(line[0:i]) + width(line[i])/2\<close>, or to the length of the line when there is
  none, so that on the line \<open>ab\<close> with characters 10 pixels wide a tap at \<open>x = 25\<close>, past
  the end of the text, resolves to column 2. The comments of \<open>moveCursorToTouch\<close> say the
  same: a tap in the left half of a character puts the cursor at the beginning of that
  character, any other tap after it. After the scan Reishandy\_TextInput.js moves the
  position one to the left: having typed \<open>ab\<close>, the tap at \<open>x = 25\<close> puts the cursor at
  column 1, before the \<open>b\<close>, and a tap at \<open>x = 12\<close>, in the left half of the \<open>b\<close>, puts it
  at column 0. The sums of the scan are \<open>0 + 5\<close> and \<open>10 + 5\<close>, which rounding leaves as
  they are. (For any measurement: \<open>moveCursorToTouch_steps_left\<close>. TextInput.js resolves
  the tap at \<open>x = 25\<close> to column 2: \<open>moveCursorToTouch_TextInput_examples\<close>.)
\<close>

theorem tap_past_line_end_steps_left:
  assumes "fl 5 = 5" and "fl 15 = 15"
  shows "run fl (fixedWidth 10) 100 36 [InsertChar ''a'', InsertChar ''b'', Tap 25 0] (initialize 3) =
           Inr \<lparr> maxLines = 3, lines = [''ab''], cursorX = 1, cursorY = 0,
                 isComposing = False, lastInputValue = [], inputValue = [] \<rparr> \<and>
         run fl (fixedWidth 10) 100 36 [InsertChar ''a'', InsertChar ''b'', Tap 12 0] (initialize 3) =
           Inr \<lparr> maxLines = 3, lines = [''ab''], cursorX = 0, cursorY = 0,
                 isComposing = False, lastInputValue = [], inputValue = [] \<rparr>"
proof -
  let ?typed = "\<lparr> maxLines = 3, lines = [''ab''], cursorX = 2, cursorY = 0,
                  isComposing = False, lastInputValue = [], inputValue = [] \<rparr>"
  have a: "processChar (fixedWidth 10) 100 ''a'' (initialize 3) =
             Inr ((initialize 3)\<lparr> lines := [''a''], cursorX := Suc 0 \<rparr>)"
    by (simp add: initialize_def processChar.simps potentialLine_eq processedChar_def
          fixedWidth_def backslash_def)
  have b: "processChar (fixedWidth 10) 100 ''b'' ((initialize 3)\<lparr> lines := [''a''], cursorX := Suc 0 \<rparr>) =
             Inr ?typed"
    by (simp add: initialize_def processChar.simps potentialLine_eq processedChar_def
          fixedWidth_def backslash_def)
  have scan: "touchScan fl (fixedWidth 10) ''ab'' 25 0 0 = 2"
    "touchScan fl (fixedWidth 10) ''ab'' 12 0 0 = 1"
    using assms by (simp_all add: touchScan.simps fixedWidth_def)
  have tap: "moveCursorToTouch fl (fixedWidth 10) 36 25 0 ?typed = Inr (?typed\<lparr> cursorX := 1 \<rparr>)"
    "moveCursorToTouch fl (fixedWidth 10) 36 12 0 ?typed = Inr (?typed\<lparr> cursorX := 0 \<rparr>)"
    by (simp_all add: moveCursorToTouch_def scan)
  show ?thesis
    by (simp add: a b tap)
qed

theorem tap_past_line_end_steps_left_witness:
  "run (\<lambda>q. q) (fixedWidth 10) 100 36 [InsertChar ''a'', InsertChar ''b'', Tap 25 0] (initialize 3) =
     Inr \<lparr> maxLines = 3, lines = [''ab''], cursorX = 1, cursorY = 0,
           isComposing = False, lastInputValue = [], inputValue = [] \<rparr>"
  using tap_past_line_end_steps_left [of "\<lambda>q. q"]
  by (simp del: run.simps)

subsection \<open>C4\<close>

text \<open>
  C4. The claim is that \<open>processChar\<close> calls itself at most once for a character: after one
  split at the cursor the retry inserts the character on the new line. The comments of
  \<open>processChar\<close> say the same. With the cursor at column 0 of a full line the whole line
  moves to the new line and the retry overflows again: having typed \<open>ab\<close> into a window 20
  pixels wide with characters of 10 pixels and three lines allowed, and moved the cursor
  left twice, \<open>processChar\<close> of \<open>x\<close> calls itself twice, leaves two empty lines before \<open>ab\<close>
  and drops the \<open>x\<close>. (The recursion ends at the line cap: \<open>processChar_depth_le\<close>.)
\<close>

theorem processChar_splits_twice_at_line_start:
  "run fl (fixedWidth 10) 20 36 [InsertChar ''a'', InsertChar ''b'', MoveLeft, MoveLeft]
     (initialize 3) =
     Inr \<lparr> maxLines = 3, lines = [''ab''], cursorX = 0, cursorY = 0,
           isComposing = False, lastInputValue = [], inputValue = [] \<rparr> \<and>
   processChar_depth (fixedWidth 10) 20 ''x''
     \<lparr> maxLines = 3, lines = [''ab''], cursorX = 0, cursorY = 0,
       isComposing = False, lastInputValue = [], inputValue = [] \<rparr> = 2 \<and>
   processChar (fixedWidth 10) 20 ''x''
     \<lparr> maxLines = 3, lines = [''ab''], cursorX = 0, cursorY = 0,
       isComposing = False, lastInputValue = [], inputValue = [] \<rparr> =
   Inr \<lparr> maxLines = 3, lines = [[], [], ''ab''], cursorX = 0, cursorY = 2,
         isComposing = False, lastInputValue = [], inputValue = [] \<rparr>"
  by (simp add: initialize_def moveCursorLeft_def processChar.simps processChar_depth.simps
        potentialLine_def processedChar_def fixedWidth_def breakLine_def spliceInsert_def
        slice_def sliceFrom_def sliceIndex_def backslash_def)

subsection \<open>C5\<close>

text \<open>
  C5, as the source has it. On a well-formed window the \<open>keydown\<close> handler returns
  normally. After an arrow key or the enter key the last observed value and the value of
  the input element are both empty. After the backspace key the input element keeps its
  value and the last observed value is set to that value. In all six cases the last
  observed value equals the value of the input element afterwards, so the next
  reconciliation pass starts from a baseline that agrees with the input element.
\<close>

theorem handleKeyDown_baseline:
  assumes "wellFormed w"
  shows "\<exists>w'. handleKeyDown k w = Inr w' \<and>
           (k \<in> {ArrowLeft, ArrowRight, ArrowUp, ArrowDown, Enter} \<longrightarrow>
              lastInputValue w' = [] \<and> inputValue w' = []) \<and>
           (k = Backspace \<longrightarrow>
              lastInputValue w' = inputValue w \<and> inputValue w' = inputValue w) \<and>
           (k \<noteq> OtherKey \<longrightarrow> lastInputValue w' = inputValue w')"
proof (cases k)
  case ArrowLeft
  then show ?thesis using moveCursorLeft_wellFormed [OF assms] by auto
next
  case ArrowRight
  then show ?thesis using moveCursorRight_wellFormed [OF assms] by auto
next
  case ArrowUp
  then show ?thesis using moveCursorUp_wellFormed [OF assms] by auto
next
  case ArrowDown
  then show ?thesis using moveCursorDown_wellFormed [OF assms] by auto
next
  case Backspace
  from processBackspace_wellFormed [OF assms] obtain w1 where
    b: "processBackspace w = Inr w1" by auto
  from processBackspace_input [OF b] b Backspace show ?thesis by simp
next
  case Enter
  then show ?thesis using processNewLine_wellFormed [OF assms] by auto
next
  case OtherKey
  then show ?thesis by simp
qed

theorem handleKeyDown_baseline_witness:
  "handleKeyDown Enter
     \<lparr> maxLines = 3, lines = [''ab''], cursorX = 2, cursorY = 0,
       isComposing = False, lastInputValue = ''ab'', inputValue = ''ab'' \<rparr> =
   Inr \<lparr> maxLines = 3, lines = [''ab'', []], cursorX = 0, cursorY = 1,
         isComposing = False, lastInputValue = [], inputValue = [] \<rparr> \<and>
   handleKeyDown ArrowLeft
     \<lparr> maxLines = 3, lines = [''ab''], cursorX = 2, cursorY = 0,
       isComposing = False, lastInputValue = ''ab'', inputValue = ''ab'' \<rparr> =
   Inr \<lparr> maxLines = 3, lines = [''ab''], cursorX = 1, cursorY = 0,
         isComposing = False, lastInputValue = [], inputValue = [] \<rparr>"
  using handleKeyDown_baseline [of
      "\<lparr> maxLines = 3, lines = [''ab''], cursorX = 2, cursorY = 0,
         isComposing = False, lastInputValue = ''ab'', inputValue = ''ab'' \<rparr>" Enter]
    handleKeyDown_baseline [of
      "\<lparr> maxLines = 3, lines = [''ab''], cursorX = 2, cursorY = 0,
         isComposing = False, lastInputValue = ''ab'', inputValue = ''ab'' \<rparr>" ArrowLeft]
  by (simp add: wellFormed_def processNewLine_def breakLine_def spliceInsert_def
        moveCursorLeft_def slice_def sliceFrom_def sliceIndex_def)

text \<open>
  C5 as claimed has the backspace key reset the last observed value to the empty string
  and clear the input element. With \<open>ab\<close> typed and observed, the backspace key deletes
  the \<open>b\<close> from the buffer and leaves both the input element and the last observed value
  at \<open>ab\<close>.
\<close>

theorem backspace_key_keeps_input_counterexample:
  "handleKeyDown Backspace
     \<lparr> maxLines = 3, lines = [''ab''], cursorX = 2, cursorY = 0,
       isComposing = False, lastInputValue = ''ab'', inputValue = ''ab'' \<rparr> =
   Inr \<lparr> maxLines = 3, lines = [''a''], cursorX = 1, cursorY = 0,
         isComposing = False, lastInputValue = ''ab'', inputValue = ''ab'' \<rparr>"
  by (simp add: processBackspace_def slice_def sliceFrom_def sliceIndex_def backslash_def)

subsection \<open>C6\<close>

text \<open>
  C6, as Reishandy\_TextInput.js has it. On a window with a valid cursor,
  \<open>processBackspace\<close> behaves as follows. If the column is positive and the two
  characters left of the cursor are not both backslashes, it removes the one character
  left of the cursor and decrements the column by 1. If the two characters left of the
  cursor are both backslashes, it removes both and decrements the column by 2. If the
  column is 0 and the row is positive, it appends the current line to the previous line,
  sets the column to the previous line's original length and removes the current line.
  If column and row are 0 it changes nothing. (In Reishandy\_TextInput\_old.js the second
  case does not exist and the first holds for every positive column:
  \<open>processBackspace_old_cases\<close>.)
\<close>

theorem processBackspace_cases:
  assumes "cursorY w < length (lines w)" and "cursorX w \<le> length (lines w ! cursorY w)"
  shows "(0 < cursorX w \<and>
          \<not> (2 \<le> cursorX w \<and> lines w ! cursorY w ! (cursorX w - 2) = backslash \<and>
                               lines w ! cursorY w ! (cursorX w - 1) = backslash) \<longrightarrow>
            processBackspace w =
              Inr (w\<lparr> lines := (lines w)[cursorY w :=
                                  take (cursorX w - 1) (lines w ! cursorY w) @
                                  drop (cursorX w) (lines w ! cursorY w)],
                      cursorX := cursorX w - 1 \<rparr>)) \<and>
         (2 \<le> cursorX w \<and> lines w ! cursorY w ! (cursorX w - 2) = backslash \<and>
                           lines w ! cursorY w ! (cursorX w - 1) = backslash \<longrightarrow>
            processBackspace w =
              Inr (w\<lparr> lines := (lines w)[cursorY w :=
                                  take (cursorX w - 2) (lines w ! cursorY w) @
                                  drop (cursorX w) (lines w ! cursorY w)],
                      cursorX := cursorX w - 2 \<rparr>)) \<and>
         (cursorX w = 0 \<and> 0 < cursorY w \<longrightarrow>
            processBackspace w =
              Inr (w\<lparr> cursorX := length (lines w ! (cursorY w - 1)),
                      lines := take (cursorY w - 1) (lines w) @
                               [lines w ! (cursorY w - 1) @ lines w ! cursorY w] @
                               drop (cursorY w + 1) (lines w),
                      cursorY := cursorY w - 1 \<rparr>)) \<and>
         (cursorX w = 0 \<and> cursorY w = 0 \<longrightarrow> processBackspace w = Inr w)"
proof (intro conjI impI)
  let ?line = "lines w ! cursorY w"
  note esc = slice_prev2_escaped [OF assms(2), of backslash backslash]
  assume h: "0 < cursorX w \<and>
        \<not> (2 \<le> cursorX w \<and> ?line ! (cursorX w - 2) = backslash \<and> ?line ! (cursorX w - 1) = backslash)"
  then have "slice ?line (int (cursorX w) - 2) (int (cursorX w)) \<noteq> [backslash, backslash]"
    using esc by blast
  then show "processBackspace w =
            Inr (w\<lparr> lines := (lines w)[cursorY w := take (cursorX w - 1) ?line @ drop (cursorX w) ?line],
                    cursorX := cursorX w - 1 \<rparr>)"
    using assms(1) h by (simp add: processBackspace_def slice_0_pred)
next
  let ?line = "lines w ! cursorY w"
  note esc = slice_prev2_escaped [OF assms(2), of backslash backslash]
  assume h: "2 \<le> cursorX w \<and> ?line ! (cursorX w - 2) = backslash \<and> ?line ! (cursorX w - 1) = backslash"
  then have "slice ?line (int (cursorX w) - 2) (int (cursorX w)) = [backslash, backslash]"
    using esc by blast
  then show "processBackspace w =
            Inr (w\<lparr> lines := (lines w)[cursorY w := take (cursorX w - 2) ?line @ drop (cursorX w) ?line],
                    cursorX := cursorX w - 2 \<rparr>)"
    using assms(1) h by (simp add: processBackspace_def slice_0_pred2)
next
  let ?line = "lines w ! cursorY w"
  assume h: "cursorX w = 0 \<and> 0 < cursorY w"
  then have p: "cursorY w - 1 < length (lines w)" using assms(1) by simp
  have "spliceRemove ((lines w)[cursorY w - 1 := lines w ! (cursorY w - 1) @ ?line]) (cursorY w) =
        take (cursorY w - 1) (lines w) @ [lines w ! (cursorY w - 1) @ ?line] @
        drop (cursorY w + 1) (lines w)"
    using h assms(1) by (rule merge_lines)
  then show "processBackspace w =
            Inr (w\<lparr> cursorX := length (lines w ! (cursorY w - 1)),
                    lines := take (cursorY w - 1) (lines w) @
                             [lines w ! (cursorY w - 1) @ ?line] @
                             drop (cursorY w + 1) (lines w),
                    cursorY := cursorY w - 1 \<rparr>)"
    using h assms(1) p by (simp add: processBackspace_def)
next
  assume "cursorX w = 0 \<and> cursorY w = 0"
  then show "processBackspace w = Inr w" by (simp add: processBackspace_def)
qed

theorem processBackspace_cases_witness:
  "processBackspace
     \<lparr> maxLines = 3, lines = [''ab''], cursorX = 2, cursorY = 0,
       isComposing = False, lastInputValue = [], inputValue = [] \<rparr> =
   Inr \<lparr> maxLines = 3, lines = [''a''], cursorX = 1, cursorY = 0,
         isComposing = False, lastInputValue = [], inputValue = [] \<rparr> \<and>
   processBackspace
     \<lparr> maxLines = 3, lines = [''ab'', ''cd''], cursorX = 0, cursorY = 1,
       isComposing = False, lastInputValue = [], inputValue = [] \<rparr> =
   Inr \<lparr> maxLines = 3, lines = [''abcd''], cursorX = 2, cursorY = 0,
         isComposing = False, lastInputValue = [], inputValue = [] \<rparr> \<and>
   processBackspace
     \<lparr> maxLines = 3, lines = [''ab''], cursorX = 0, cursorY = 0,
       isComposing = False, lastInputValue = [], inputValue = [] \<rparr> =
   Inr \<lparr> maxLines = 3, lines = [''ab''], cursorX = 0, cursorY = 0,
         isComposing = False, lastInputValue = [], inputValue = [] \<rparr>"
  using processBackspace_cases [of
      "\<lparr> maxLines = 3, lines = [''ab''], cursorX = 2, cursorY = 0,
         isComposing = False, lastInputValue = [], inputValue = [] \<rparr>"]
    processBackspace_cases [of
      "\<lparr> maxLines = 3, lines = [''ab'', ''cd''], cursorX = 0, cursorY = 1,
         isComposing = False, lastInputValue = [], inputValue = [] \<rparr>"]
    processBackspace_cases [of
      "\<lparr> maxLines = 3, lines = [''ab''], cursorX = 0, cursorY = 0,
         isComposing = False, lastInputValue = [], inputValue = [] \<rparr>"]
  by (simp add: backslash_def)

text \<open>
  C6 as claimed has \<open>processBackspace\<close> remove exactly one character whenever the column
  is positive. On a line of two backslashes with the cursor at column 2 it removes both
  and moves the cursor to column 0.
\<close>

theorem backspace_removes_two_counterexample:
  "processBackspace
     \<lparr> maxLines = 3, lines = [[backslash, backslash]], cursorX = 2, cursorY = 0,
       isComposing = False, lastInputValue = [], inputValue = [] \<rparr> =
   Inr \<lparr> maxLines = 3, lines = [[]], cursorX = 0, cursorY = 0,
         isComposing = False, lastInputValue = [], inputValue = [] \<rparr>"
  by (simp add: processBackspace_def slice_def sliceFrom_def sliceIndex_def)

subsection \<open>C7\<close>

text \<open>
  C7. The claim is that inserting one more character into a line exactly at capacity,
  with the buffer below \<open>maxLines\<close>, gives two lines whose concatenation is the original
  line with the new character. With the cursor at column 0 the character is lost: having
  typed \<open>ab\<close> into a window 20 pixels wide with characters of 10 pixels and two lines
  allowed, so that the line is exactly at capacity, and moved the cursor left twice,
  \<open>processChar\<close> of \<open>x\<close> leaves an empty line followed by \<open>ab\<close>. (With the cursor at a
  later column the two lines hold the character: \<open>wrap_after_first_column\<close>.)
\<close>

theorem insert_at_line_start_loses_character:
  "fixedWidth 10 ''ab'' \<le> 20 \<and> 20 < fixedWidth 10 ''ab'' + 10 \<and>
   run fl (fixedWidth 10) 20 36 [InsertChar ''a'', InsertChar ''b'', MoveLeft, MoveLeft]
     (initialize 2) =
     Inr \<lparr> maxLines = 2, lines = [''ab''], cursorX = 0, cursorY = 0,
           isComposing = False, lastInputValue = [], inputValue = [] \<rparr> \<and>
   processChar (fixedWidth 10) 20 ''x''
     \<lparr> maxLines = 2, lines = [''ab''], cursorX = 0, cursorY = 0,
       isComposing = False, lastInputValue = [], inputValue = [] \<rparr> =
   Inr \<lparr> maxLines = 2, lines = [[], ''ab''], cursorX = 0, cursorY = 1,
         isComposing = False, lastInputValue = [], inputValue = [] \<rparr>"
  by (simp add: initialize_def moveCursorLeft_def processChar.simps
        potentialLine_def processedChar_def fixedWidth_def breakLine_def spliceInsert_def
        slice_def sliceFrom_def sliceIndex_def backslash_def)

subsection \<open>C8\<close>

text \<open>
  C8, as the source has it. When the characters of a text \<open>t\<close> are inserted one by one
  into the initial buffer and no insertion overflows the available width, the buffer is
  the single line \<open>t\<close> with every backslash doubled, and \<open>inputText\<close> returns that line;
  it is \<open>t\<close> itself when \<open>t\<close> contains no backslash.
\<close>

theorem inputText_after_insertions:
  assumes "\<forall>k<length t. tw (escapeBackslashes (take (Suc k) t)) \<le> maxWidth"
  shows "processChars tw maxWidth t (initialize n) =
           Inr ((initialize n)\<lparr> lines := [escapeBackslashes t],
                                cursorX := length (escapeBackslashes t) \<rparr>) \<and>
         inputText ((initialize n)\<lparr> lines := [escapeBackslashes t],
                                    cursorX := length (escapeBackslashes t) \<rparr>) =
           escapeBackslashes t \<and>
         (backslash \<notin> set t \<longrightarrow> escapeBackslashes t = t)"
proof -
  have "processChars tw maxWidth t (initialize n) =
          Inr ((initialize n)\<lparr> lines := [[] @ escapeBackslashes t],
                               cursorX := length ([] :: string) + length (escapeBackslashes t) \<rparr>)"
    using assms by (intro processChars_on_last_line) (simp_all add: initialize_def)
  then show ?thesis
    by (simp add: inputText_def escapeBackslashes_plain)
qed

theorem inputText_after_insertions_witness:
  "processChars (fixedWidth 10) 100 ''ab'' (initialize 3) =
     Inr ((initialize 3)\<lparr> lines := [''ab''], cursorX := 2 \<rparr>) \<and>
   inputText ((initialize 3)\<lparr> lines := [''ab''], cursorX := 2 \<rparr>) = ''ab''"
proof -
  have e: "escapeBackslashes ''ab'' = ''ab''"
    by (simp add: escapeBackslashes_def processedChar_def backslash_def)
  have "\<forall>k<length ''ab''. fixedWidth 10 (escapeBackslashes (take (Suc k) ''ab'')) \<le> 100"
    by (simp add: fixedWidth_def escapeBackslashes_def processedChar_def backslash_def
          less_Suc_eq numeral_2_eq_2)
  from inputText_after_insertions [OF this, of 3] show ?thesis
    by (simp add: e numeral_2_eq_2 del: processChars.simps)
qed

text \<open>
  C8 as claimed has \<open>inputText\<close> return the inserted text exactly. After the insertion of
  one backslash it returns two backslashes.
\<close>

theorem backslash_text_doubled_counterexample:
  "processChars (fixedWidth 10) 100 [backslash] (initialize 3) =
     Inr ((initialize 3)\<lparr> lines := [[backslash, backslash]], cursorX := 2 \<rparr>) \<and>
   inputText ((initialize 3)\<lparr> lines := [[backslash, backslash]], cursorX := 2 \<rparr>) =
     [backslash, backslash] \<and>
   inputText ((initialize 3)\<lparr> lines := [[backslash, backslash]], cursorX := 2 \<rparr>) \<noteq> [backslash]"
  by (simp add: processChar.simps potentialLine_def processedChar_def initialize_def
        fixedWidth_def slice_def sliceFrom_def sliceIndex_def inputText_def)

subsection \<open>C9\<close>

text \<open>
  C9, as the source has it. On an empty current line on which two backslashes fit the
  available width, \<open>processChar\<close> of one backslash makes the line two backslashes and moves
  the cursor from column 0 to column 2; one \<open>processBackspace\<close> then removes both
  characters and gives back the window as it was, with the empty line and the cursor at
  column 0.
\<close>

theorem backslash_insert_then_delete:
  assumes "cursorY w < length (lines w)"
    and "lines w ! cursorY w = []"
    and "cursorX w = 0"
    and "tw [backslash, backslash] \<le> maxWidth"
  shows "processChar tw maxWidth [backslash] w =
           Inr (w\<lparr> lines := (lines w)[cursorY w := [backslash, backslash]], cursorX := 2 \<rparr>) \<and>
         processBackspace (w\<lparr> lines := (lines w)[cursorY w := [backslash, backslash]], cursorX := 2 \<rparr>) =
           Inr w"
proof
  have "\<not> maxWidth < tw (potentialLine (lines w ! cursorY w) (cursorX w) [backslash])"
    using assms(2,3,4) by (simp add: potentialLine_eq processedChar_def)
  from processChar_fits(1) [where tw = tw and maxWidth = maxWidth, OF assms(1) this]
  show "processChar tw maxWidth [backslash] w =
           Inr (w\<lparr> lines := (lines w)[cursorY w := [backslash, backslash]], cursorX := 2 \<rparr>)"
    using assms(2,3) by (simp add: potentialLine_eq processedChar_def)
next
  let ?w1 = "w\<lparr> lines := (lines w)[cursorY w := [backslash, backslash]], cursorX := 2 \<rparr>"
  have "(lines w)[cursorY w := []] = lines w"
    using assms(2) by (metis list_update_id)
  moreover have "w\<lparr> cursorX := 0 \<rparr> = w" using assms(3) by simp
  ultimately show "processBackspace ?w1 = Inr w"
    using assms(1) by (simp add: processBackspace_def slice_def sliceFrom_def sliceIndex_def)
qed

theorem backslash_insert_then_delete_witness:
  "processChar (fixedWidth 10) 100 [backslash] (initialize 3) =
     Inr ((initialize 3)\<lparr> lines := [[backslash, backslash]], cursorX := 2 \<rparr>) \<and>
   processBackspace ((initialize 3)\<lparr> lines := [[backslash, backslash]], cursorX := 2 \<rparr>) =
     Inr (initialize 3)"
  using backslash_insert_then_delete [of "initialize 3" "fixedWidth 10" 100]
  by (simp add: initialize_def fixedWidth_def)

text \<open>
  C9 as claimed has the insertion of a backslash into an empty line always give the line
  of two backslashes. Where the two backslashes do not fit the available width
  (characters 10 pixels wide, 15 pixels available) and the buffer is at its line cap, the
  backslash is dropped and the line stays empty.
\<close>

theorem backslash_too_wide_counterexample:
  "processChar (fixedWidth 10) 15 [backslash] (initialize 1) = Inr (initialize 1) \<and>
   lines (initialize 1) = [[]] \<and> cursorX (initialize 1) = 0"
  by (simp add: initialize_def processChar.simps potentialLine_def processedChar_def
        fixedWidth_def slice_def sliceFrom_def sliceIndex_def)

subsection \<open>C10\<close>

text \<open>
  C10. When the buffer already holds \<open>maxLines\<close> lines and the line with the character
  inserted at the cursor is wider than the available width, \<open>processChar\<close> returns
  normally and leaves the window, so the lines, the cursor row and the cursor column,
  as it was.
\<close>

theorem processChar_full_drops:
  assumes "cursorY w < length (lines w)"
    and "length (lines w) = maxLines w"
    and "maxWidth < tw (potentialLine (lines w ! cursorY w) (cursorX w) ch)"
  shows "processChar tw maxWidth ch w = Inr w"
  using assms by (simp add: processChar.simps)

theorem processChar_full_drops_witness:
  "processChar (fixedWidth 10) 20 ''c''
     \<lparr> maxLines = 1, lines = [''ab''], cursorX = 2, cursorY = 0,
       isComposing = False, lastInputValue = [], inputValue = [] \<rparr> =
   Inr \<lparr> maxLines = 1, lines = [''ab''], cursorX = 2, cursorY = 0,
         isComposing = False, lastInputValue = [], inputValue = [] \<rparr>"
  using processChar_full_drops [of
      "\<lparr> maxLines = 1, lines = [''ab''], cursorX = 2, cursorY = 0,
         isComposing = False, lastInputValue = [], inputValue = [] \<rparr>"
      20 "fixedWidth 10" "''c''"]
  by (simp add: potentialLine_eq processedChar_def fixedWidth_def)

end
